theory Spec2Isabelle
  imports Complex_Main "HOL-Library.AList"
begin

section \<open>Data model of \<open>App.tsx\<close>\<close>

text \<open>
  The component \<open>App\<close> keeps its data in React state cells and refs. Each cell is a
  field of the record \<open>app\<close> below; an event handler is a function from \<open>app\<close> to
  \<open>app\<close>, and a \<open>useEffect\<close> body is a function that runs on the state the handler
  left behind.

  A number cell \<open>Num q\<close> holds a finite double, given by its value \<open>q\<close>. The keys and
  cells of the sample data are small integers. The arithmetic of the histogram rounds every
  result to the nearest double, as the host does (see the section on doubles).
\<close>

datatype cell = Num rat | Str string

record SeriesMeta =
  id_s :: string
  label :: string
  color :: string
  visible :: bool

text \<open>
  \<open>DataRow\<close>: the property \<open>key\<close>, the optional flag \<open>_hidden\<close> (absent reads as
  false, which is all the code ever asks of it) and the remaining properties as the list
  of (column id, cell) pairs in insertion order, as an object keeps them.
\<close>

record DataRow =
  key :: cell
  hidden :: bool
  cells :: "(string \<times> cell) list"

datatype ChartType = line | bar | stackedBar | area | radar | pie | donut | histogram | scatter

datatype position = above | below

datatype sweepKind = row_k | series_k

record app =
  rows :: "DataRow list"
  series :: "SeriesMeta list"
  selectedSeriesIds :: "string list"
  labelColumn :: string
  chartType :: ChartType
  scatterXColumn :: string
  scatterYColumn :: string
  scatterSizeColumn :: string
  scatterColorColumn :: string
  barColorColumn :: string
  pieSeriesColumn :: string
  histogramColumn :: string
  histogramBins :: rat
  editingSeriesId :: "string option"
  editingValue :: string
  dragSeriesId :: "string option"
  dragRowKey :: "cell option"
  rowDragOverKey :: "cell option"
  rowDragPosition :: "position option"
  editingRowIndex :: "nat option"
  editingRowValue :: string
  sweepActive :: "sweepKind option"
  sweepRowSet :: "cell set"
  sweepSeriesSet :: "string set"

section \<open>Column visibility and the selection effect\<close>

text \<open>\<open>series.filter(s => s.visible).map(s => s.id)\<close>, as both effects compute it.\<close>

definition visibleIds :: "SeriesMeta list \<Rightarrow> string list" where
  "visibleIds ss = map id_s (filter visible ss)"

definition toggleSeriesVisible :: "string \<Rightarrow> app \<Rightarrow> app" where
  "toggleSeriesVisible i st =
     st\<lparr>series := map (\<lambda>s. if id_s s = i then s\<lparr>visible := \<not> visible s\<rparr> else s) (series st),
        selectedSeriesIds := filter (\<lambda>sid. sid \<noteq> i) (selectedSeriesIds st)\<rparr>"

definition showAllSeries :: "app \<Rightarrow> app" where
  "showAllSeries st = st\<lparr>series := map (\<lambda>s. s\<lparr>visible := True\<rparr>) (series st)\<rparr>"

text \<open>The effect on \<open>[series]\<close> that repairs the multi-series selection.\<close>

definition selectionEffect :: "app \<Rightarrow> app" where
  "selectionEffect st =
     (let vis = visibleIds (series st);
          filtered = filter (\<lambda>i. i \<in> set vis) (selectedSeriesIds st)
      in st\<lparr>selectedSeriesIds :=
            (if filtered \<noteq> [] then filtered else take (min 3 (length vis)) vis)\<rparr>)"

section \<open>The reconciler effect\<close>

text \<open>\<open>visibleIds[0] || ''\<close>: the first visible id, or the empty string.\<close>

definition firstOrEmpty :: "string list \<Rightarrow> string" where
  "firstOrEmpty vis = (case vis of [] \<Rightarrow> [] | x # _ \<Rightarrow> x)"

definition reconciler :: "app \<Rightarrow> app" where
  "reconciler st =
     (let vis = visibleIds (series st);
          st1 = (if pieSeriesColumn st \<notin> set vis
                 then st\<lparr>pieSeriesColumn := firstOrEmpty vis\<rparr> else st);
          st2 = (if histogramColumn st \<notin> set vis
                 then st1\<lparr>histogramColumn := firstOrEmpty vis\<rparr> else st1);
          st3 = (if scatterYColumn st \<notin> set vis
                 then st2\<lparr>scatterYColumn := firstOrEmpty vis\<rparr> else st2)
      in if labelColumn st \<noteq> ''key'' \<and> labelColumn st \<notin> set vis
         then st3\<lparr>labelColumn := ''key''\<rparr> else st3)"

text \<open>The warning line of \<open>MappingControls\<close> is rendered exactly when this holds.\<close>

definition hiddenYWarning :: "app \<Rightarrow> bool" where
  "hiddenYWarning st =
     (chartType st = scatter \<and>
      \<not> list_ex (\<lambda>s. id_s s = scatterYColumn st \<and> visible s) (series st))"

text \<open>After a render both effects have run; they write disjoint cells.\<close>

definition runEffects :: "app \<Rightarrow> app" where
  "runEffects st = reconciler (selectionEffect st)"

section \<open>Strings and numbers of the host language\<close>

text \<open>
  \<open>String.prototype.trim\<close> as it acts on ASCII text, where the white space is tab, line
  feed, vertical tab, form feed, carriage return and space.
\<close>

definition isWhiteSpace :: "char \<Rightarrow> bool" where
  "isWhiteSpace c = (let n = (of_char c :: nat) in (9 \<le> n \<and> n \<le> 13) \<or> n = 32)"

definition trim :: "string \<Rightarrow> string" where
  "trim s = rev (dropWhile isWhiteSpace (rev (dropWhile isWhiteSpace s)))"

text \<open>\<open>String.prototype.toLowerCase\<close> as it acts on ASCII text: \<open>A\<close> to \<open>Z\<close> are folded.\<close>

definition lowerChar :: "char \<Rightarrow> char" where
  "lowerChar c =
     (let n = (of_char c :: nat)
      in if 65 \<le> n \<and> n \<le> 90 then ''abcdefghijklmnopqrstuvwxyz'' ! (n - 65) else c)"

definition asciiLowerCase :: "string \<Rightarrow> string" where
  "asciiLowerCase s = map lowerChar s"

text \<open>
  \<open>trim\<close> and \<open>toLowerCase\<close> are functions of the host language, not of \<open>App.tsx\<close>,
  and what they do beyond ASCII (the Unicode spaces, the letters of other scripts) is the
  host's matter. The column rename takes the two functions as a parameter, so that what is
  proved of it is proved for the host's own functions. Text beyond ASCII is held in an
  encoding of it by 8-bit characters, such as UTF-8, and the host's functions act on the
  encoded text. \<open>asciiHost\<close> is the pair that agrees with the host on ASCII text.
\<close>

record host =
  hostTrim :: "string \<Rightarrow> string"
  hostLowerCase :: "string \<Rightarrow> string"

definition asciiHost :: host where
  "asciiHost = \<lparr>hostTrim = trim, hostLowerCase = asciiLowerCase\<rparr>"

definition isDigit :: "char \<Rightarrow> bool" where
  "isDigit c = (let n = (of_char c :: nat) in 48 \<le> n \<and> n \<le> 57)"

text \<open>The test \<open>value.match(/^[-+]?\d+(\.\d+)?$/)\<close> of \<open>commitEditRowHeader\<close>.\<close>

definition matchesDecimal :: "string \<Rightarrow> bool" where
  "matchesDecimal s =
     (let body = (case s of [] \<Rightarrow> [] | c # cs \<Rightarrow> if c = CHR ''-'' \<or> c = CHR ''+'' then cs else s);
          ip = takeWhile isDigit body;
          rest = dropWhile isDigit body
      in ip \<noteq> [] \<and>
         (case rest of [] \<Rightarrow> True
          | d # fp \<Rightarrow> d = CHR ''.'' \<and> fp \<noteq> [] \<and> list_all isDigit fp))"

definition digitsToNat :: "string \<Rightarrow> nat" where
  "digitsToNat ds = foldl (\<lambda>n c. 10 * n + ((of_char c :: nat) - 48)) 0 ds"

text \<open>
  \<open>Number(value)\<close> on a string that passed \<open>matchesDecimal\<close>: the decimal it denotes.
\<close>

definition decimalValue :: "string \<Rightarrow> rat" where
  "decimalValue s =
     (let neg = (case s of [] \<Rightarrow> False | c # _ \<Rightarrow> c = CHR ''-'');
          body = (case s of [] \<Rightarrow> [] | c # cs \<Rightarrow> if c = CHR ''-'' \<or> c = CHR ''+'' then cs else s);
          ip = takeWhile isDigit body;
          fp = drop 1 (dropWhile isDigit body);
          m = of_nat (digitsToNat ip) + of_nat (digitsToNat fp) / 10 ^ length fp
      in if neg then - m else m)"

text \<open>
  \<open>String(n)\<close> for a number \<open>n\<close>: the sign, the integer part in decimal, and the
  fractional digits when there are any, without trailing zeros. This is what JavaScript
  prints for a decimal of at most fifteen significant digits whose magnitude lies between
  \<open>1e-6\<close> and \<open>1e21\<close>; the fuel of \<open>fracDigits\<close> bounds the digits written.
\<close>

definition digitChar :: "nat \<Rightarrow> char" where
  "digitChar d = ''0123456789'' ! d"

fun natToString :: "nat \<Rightarrow> string" where
  "natToString n =
     (if n < 10 then [digitChar n]
      else natToString (n div 10) @ [digitChar (n mod 10)])"

declare natToString.simps [simp del]

fun fracDigits :: "nat \<Rightarrow> rat \<Rightarrow> string" where
  "fracDigits fuel f =
     (if fuel = 0 \<or> f = 0 then []
      else digitChar (nat \<lfloor>f * 10\<rfloor>) # fracDigits (fuel - 1) (f * 10 - of_int \<lfloor>f * 10\<rfloor>))"

declare fracDigits.simps [simp del]

definition posToString :: "rat \<Rightarrow> string" where
  "posToString q =
     natToString (nat \<lfloor>q\<rfloor>) @
     (let f = q - of_int \<lfloor>q\<rfloor> in if f = 0 then [] else CHR ''.'' # fracDigits 20 f)"

definition numToString :: "rat \<Rightarrow> string" where
  "numToString q = (if q < 0 then CHR ''-'' # posToString (- q) else posToString q)"

definition jsString :: "cell \<Rightarrow> string" where
  "jsString c = (case c of Num q \<Rightarrow> numToString q | Str s \<Rightarrow> s)"

text \<open>
  \<open>r[c]\<close> for a column name \<open>c\<close>: the row key under \<open>key\<close>, a data cell otherwise
  (\<open>None\<close> is \<open>undefined\<close>).
\<close>

definition getProp :: "DataRow \<Rightarrow> string \<Rightarrow> cell option" where
  "getProp r c = (if c = ''key'' then Some (key r) else map_of (cells r) c)"

section \<open>Array helpers\<close>

text \<open>\<open>Array.prototype.findIndex\<close>; \<open>None\<close> stands for the result \<open>-1\<close>.\<close>

fun findIndex :: "('a \<Rightarrow> bool) \<Rightarrow> 'a list \<Rightarrow> nat option" where
  "findIndex P [] = None"
| "findIndex P (x # xs) = (if P x then Some 0 else map_option Suc (findIndex P xs))"

text \<open>
  \<open>clone.splice(i, 1)\<close> and \<open>clone.splice(i, 0, x)\<close>; a start index beyond the end is
  clamped to the length, as \<open>take\<close> and \<open>drop\<close> do.
\<close>

definition spliceOut :: "nat \<Rightarrow> 'a list \<Rightarrow> 'a list" where
  "spliceOut i xs = take i xs @ drop (Suc i) xs"

definition spliceIn :: "nat \<Rightarrow> 'a \<Rightarrow> 'a list \<Rightarrow> 'a list" where
  "spliceIn i x xs = take i xs @ x # drop i xs"

section \<open>Renaming a column\<close>

definition startRenameSeries :: "string \<Rightarrow> app \<Rightarrow> app" where
  "startRenameSeries i st =
     (case find (\<lambda>s. id_s s = i) (series st) of
        None \<Rightarrow> st
      | Some target \<Rightarrow> st\<lparr>editingSeriesId := Some i, editingValue := label target\<rparr>)"

text \<open>The \<open>onChange\<close> of the rename input.\<close>

definition setEditingValue :: "string \<Rightarrow> app \<Rightarrow> app" where
  "setEditingValue v st = st\<lparr>editingValue := v\<rparr>"

text \<open>
  \<open>if (!editingSeriesId) return\<close> leaves on \<open>null\<close> and on the empty string, both
  falsy; so does \<open>if (!trimmed)\<close> on the empty string. \<open>h\<close> holds the host's
  \<open>trim\<close> and \<open>toLowerCase\<close>.
\<close>

definition commitRenameSeries :: "host \<Rightarrow> app \<Rightarrow> app" where
  "commitRenameSeries h st =
     (case editingSeriesId st of
        None \<Rightarrow> st
      | Some eid \<Rightarrow>
          if eid = [] then st
          else
            let trimmed = hostTrim h (editingValue st) in
            if trimmed = [] then st\<lparr>editingSeriesId := None\<rparr>
            else if list_ex (\<lambda>s. id_s s \<noteq> eid
                               \<and> hostLowerCase h (label s) = hostLowerCase h trimmed)
                      (series st)
            then st\<lparr>editingSeriesId := None\<rparr>
            else st\<lparr>series := map (\<lambda>s. if id_s s = eid then s\<lparr>label := trimmed\<rparr> else s)
                                (series st),
                    editingSeriesId := None\<rparr>)"

definition cancelRename :: "app \<Rightarrow> app" where
  "cancelRename st = st\<lparr>editingSeriesId := None\<rparr>"

text \<open>
  The condition under which \<open>commitRenameSeries\<close> reaches its \<open>setSeries\<close>: a column is
  being renamed, the trimmed text is not empty and no other label equals it up to case.
\<close>

definition renameAccepted :: "host \<Rightarrow> app \<Rightarrow> bool" where
  "renameAccepted h st =
     (case editingSeriesId st of
        None \<Rightarrow> False
      | Some eid \<Rightarrow>
          eid \<noteq> [] \<and> hostTrim h (editingValue st) \<noteq> []
          \<and> \<not> list_ex (\<lambda>s. id_s s \<noteq> eid
                  \<and> hostLowerCase h (label s) = hostLowerCase h (hostTrim h (editingValue st)))
                (series st))"

datatype renameEvent =
    StartRename string
  | TypeLabel string
  | CommitRename
  | CancelRename

text \<open>
  Both effects have \<open>series\<close> among their dependencies and run after the render in which
  it was replaced. Of the rename handlers only an accepted commit replaces it; the others
  set the editing cells, on which no effect depends.
\<close>

fun renameStep :: "host \<Rightarrow> renameEvent \<Rightarrow> app \<Rightarrow> app" where
  "renameStep h (StartRename i) st = startRenameSeries i st"
| "renameStep h (TypeLabel v) st = setEditingValue v st"
| "renameStep h CommitRename st =
     (if renameAccepted h st then runEffects (commitRenameSeries h st)
      else commitRenameSeries h st)"
| "renameStep h CancelRename st = cancelRename st"

definition renameRun :: "host \<Rightarrow> renameEvent list \<Rightarrow> app \<Rightarrow> app" where
  "renameRun h evs st = fold (renameStep h) evs st"

text \<open>No two columns carry labels that \<open>toLowerCase\<close> makes equal.\<close>

definition labelsDistinct :: "host \<Rightarrow> SeriesMeta list \<Rightarrow> bool" where
  "labelsDistinct h ss = distinct (map (\<lambda>s. hostLowerCase h (label s)) ss)"

section \<open>Reordering columns and rows\<close>

definition onSeriesDragStart :: "string \<Rightarrow> app \<Rightarrow> app" where
  "onSeriesDragStart i st = st\<lparr>dragSeriesId := Some i\<rparr>"

definition reorderSeries :: "string \<Rightarrow> string \<Rightarrow> SeriesMeta list \<Rightarrow> SeriesMeta list" where
  "reorderSeries sourceId targetId prev =
     (case findIndex (\<lambda>s. id_s s = sourceId) prev of
        None \<Rightarrow> prev
      | Some srcIdx \<Rightarrow>
          (case findIndex (\<lambda>s. id_s s = targetId) prev of
             None \<Rightarrow> prev
           | Some tgtIdx \<Rightarrow> spliceIn tgtIdx (prev ! srcIdx) (spliceOut srcIdx prev)))"

definition onSeriesDrop :: "string \<Rightarrow> app \<Rightarrow> app" where
  "onSeriesDrop targetId st =
     (case dragSeriesId st of
        None \<Rightarrow> st\<lparr>dragSeriesId := None\<rparr>
      | Some sourceId \<Rightarrow>
          if sourceId = [] \<or> sourceId = targetId then st\<lparr>dragSeriesId := None\<rparr>
          else st\<lparr>dragSeriesId := None,
                  series := reorderSeries sourceId targetId (series st)\<rparr>)"

definition onRowDragStart :: "cell \<Rightarrow> app \<Rightarrow> app" where
  "onRowDragStart rowKey st =
     (if editingRowIndex st \<noteq> None then st else st\<lparr>dragRowKey := Some rowKey\<rparr>)"

text \<open>
  \<open>onRowDragOver\<close>: the half of the target row under the pointer, computed from the
  bounding box, arrives as the argument \<open>pos\<close>.
\<close>

definition onRowDragOver :: "cell \<Rightarrow> position \<Rightarrow> app \<Rightarrow> app" where
  "onRowDragOver targetKey pos st =
     (if rowDragOverKey st \<noteq> Some targetKey \<or> rowDragPosition st \<noteq> Some pos
      then st\<lparr>rowDragOverKey := Some targetKey, rowDragPosition := Some pos\<rparr>
      else st)"

definition clearRowDragState :: "app \<Rightarrow> app" where
  "clearRowDragState st = st\<lparr>rowDragOverKey := None, rowDragPosition := None\<rparr>"

definition reorderRows :: "cell \<Rightarrow> cell \<Rightarrow> position option \<Rightarrow> DataRow list \<Rightarrow> DataRow list" where
  "reorderRows sourceKey targetKey pos prev =
     (case findIndex (\<lambda>r. key r = sourceKey) prev of
        None \<Rightarrow> prev
      | Some srcIdx \<Rightarrow>
          (case findIndex (\<lambda>r. key r = targetKey) prev of
             None \<Rightarrow> prev
           | Some tgtIdx \<Rightarrow>
               let insertIndex0 = tgtIdx + (if pos = Some below then 1 else 0);
                   insertIndex = (if srcIdx < insertIndex0 then insertIndex0 - 1 else insertIndex0)
               in if insertIndex = srcIdx then prev
                  else spliceIn insertIndex (prev ! srcIdx) (spliceOut srcIdx prev)))"

definition onRowDrop :: "cell \<Rightarrow> app \<Rightarrow> app" where
  "onRowDrop targetKey st =
     (case dragRowKey st of
        None \<Rightarrow> clearRowDragState st
      | Some sourceKey \<Rightarrow>
          clearRowDragState
            (st\<lparr>dragRowKey := None,
                rows := reorderRows sourceKey targetKey (rowDragPosition st) (rows st)\<rparr>))"

definition onRowDragEnd :: "app \<Rightarrow> app" where
  "onRowDragEnd st = (clearRowDragState st)\<lparr>dragRowKey := None\<rparr>"

text \<open>
  One drag and drop of a column: a drag starts on the handle of \<open>sourceId\<close> and ends
  with a drop on the header of \<open>targetId\<close>.
\<close>

definition dragDropSeries :: "string \<Rightarrow> string \<Rightarrow> app \<Rightarrow> app" where
  "dragDropSeries sourceId targetId st =
     runEffects (onSeriesDrop targetId (runEffects (onSeriesDragStart sourceId st)))"

text \<open>
  One drag and drop of a row: the drag starts on the handle of the row \<open>sourceKey\<close>, the
  pointer passes over the target row, which records the half it is in, and the row is
  dropped there. The three handlers set \<open>rows\<close> and the drag cells only; no effect
  depends on them, so none runs.
\<close>

definition dragDropRow :: "cell \<Rightarrow> cell \<Rightarrow> position \<Rightarrow> app \<Rightarrow> app" where
  "dragDropRow sourceKey targetKey pos st =
     onRowDrop targetKey (onRowDragOver targetKey pos (onRowDragStart sourceKey st))"

section \<open>Renaming a row header\<close>

text \<open>
  \<open>startEditRowHeader\<close> is bound to the header of a rendered row, so \<open>rowIndex\<close> is
  within the list; were it not, reading \<open>rows[rowIndex][labelColumn]\<close> would throw, and
  the model leaves the state as it is.
\<close>

definition startEditRowHeader :: "nat \<Rightarrow> app \<Rightarrow> app" where
  "startEditRowHeader rowIndex st =
     (if rowIndex < length (rows st)
      then st\<lparr>editingRowIndex := Some rowIndex,
              editingRowValue :=
                (case getProp (rows st ! rowIndex) (labelColumn st) of
                   None \<Rightarrow> [] | Some c \<Rightarrow> jsString c)\<rparr>
      else st)"

definition setEditingRowValue :: "string \<Rightarrow> app \<Rightarrow> app" where
  "setEditingRowValue v st = st\<lparr>editingRowValue := v\<rparr>"

definition cancelEditRowHeader :: "app \<Rightarrow> app" where
  "cancelEditRowHeader st = st\<lparr>editingRowIndex := None, editingRowValue := []\<rparr>"

text \<open>
  The duplicate test of \<open>commitEditRowHeader\<close>:
  \<open>prev.some((r, i) => i !== editingRowIndex && String(r[labelColumn]) === String(value))\<close>,
  where \<open>labelColumn\<close> is \<open>key\<close>.
\<close>

definition duplicateKey :: "nat \<Rightarrow> string \<Rightarrow> DataRow list \<Rightarrow> bool" where
  "duplicateKey idx v prev =
     list_ex (\<lambda>(i, r). i \<noteq> idx \<and> jsString (key r) = v) (enumerate 0 prev)"

text \<open>
  The updater passed to \<open>setRows\<close>. The index being edited is that of a rendered row, and
  rows are never removed, so it is within the list; the list update leaves the rows as
  they are otherwise.
\<close>

definition commitRows :: "nat \<Rightarrow> string \<Rightarrow> string \<Rightarrow> DataRow list \<Rightarrow> DataRow list" where
  "commitRows idx lc v prev =
     (if lc = ''key'' then
        (if duplicateKey idx v prev then prev
         else prev[idx := (prev ! idx)\<lparr>key := (if matchesDecimal v then Num (decimalValue v)
                                                else Str v)\<rparr>])
      else prev[idx := (prev ! idx)\<lparr>cells := AList.update lc (Str v) (cells (prev ! idx))\<rparr>])"

definition commitEditRowHeader :: "app \<Rightarrow> app" where
  "commitEditRowHeader st =
     (case editingRowIndex st of
        None \<Rightarrow> st
      | Some idx \<Rightarrow>
          let v = trim (editingRowValue st) in
          if v = [] then cancelEditRowHeader st
          else cancelEditRowHeader
                 (st\<lparr>rows := commitRows idx (labelColumn st) v (rows st)\<rparr>))"

text \<open>
  A whole edit of the header of row \<open>ri\<close>: open the input, type \<open>txt\<close>, commit.
\<close>

definition renameRowKey :: "nat \<Rightarrow> string \<Rightarrow> app \<Rightarrow> app" where
  "renameRowKey ri txt st =
     runEffects (commitEditRowHeader
       (runEffects (setEditingRowValue txt
         (runEffects (startEditRowHeader ri st)))))"

definition renderedKeys :: "app \<Rightarrow> string list" where
  "renderedKeys st = map (\<lambda>r. jsString (key r)) (rows st)"

section \<open>Row visibility and the sweep gesture\<close>

definition hideRow :: "nat \<Rightarrow> app \<Rightarrow> app" where
  "hideRow index st =
     st\<lparr>rows := (rows st)[index := (rows st ! index)\<lparr>hidden := \<not> hidden (rows st ! index)\<rparr>]\<rparr>"

definition showAllRows :: "app \<Rightarrow> app" where
  "showAllRows st = st\<lparr>rows := map (\<lambda>r. r\<lparr>hidden := False\<rparr>) (rows st)\<rparr>"

definition endSweep :: "app \<Rightarrow> app" where
  "endSweep st = st\<lparr>sweepActive := None, sweepRowSet := {}, sweepSeriesSet := {}\<rparr>"

text \<open>
  What the handlers read of a mouse-down event: the button, and whether the target lies
  inside a drag handle, a rename button or a visibility button.
\<close>

record MouseEvent =
  button :: int
  inDragHandle :: bool
  inRenameBtn :: bool
  inVisibilityBtn :: bool

definition handleSeriesHeaderMouseDown :: "SeriesMeta \<Rightarrow> MouseEvent \<Rightarrow> app \<Rightarrow> app" where
  "handleSeriesHeaderMouseDown s e st =
     (if button e \<noteq> 0 then st
      else if inDragHandle e \<or> inRenameBtn e \<or> inVisibilityBtn e \<or>
              editingSeriesId st = Some (id_s s) then st
      else (toggleSeriesVisible (id_s s) st)
             \<lparr>sweepActive := Some series_k,
              sweepSeriesSet := insert (id_s s) (sweepSeriesSet st)\<rparr>)"

definition handleSeriesHeaderMouseEnter :: "SeriesMeta \<Rightarrow> app \<Rightarrow> app" where
  "handleSeriesHeaderMouseEnter s st =
     (if sweepActive st = Some series_k \<and> id_s s \<notin> sweepSeriesSet st
      then (toggleSeriesVisible (id_s s) st)
             \<lparr>sweepSeriesSet := insert (id_s s) (sweepSeriesSet st)\<rparr>
      else st)"

definition handleRowHeaderMouseDown :: "nat \<Rightarrow> cell \<Rightarrow> MouseEvent \<Rightarrow> app \<Rightarrow> app" where
  "handleRowHeaderMouseDown ri k e st =
     (if button e \<noteq> 0 then st
      else if inDragHandle e \<or> inRenameBtn e \<or> inVisibilityBtn e \<or>
              editingRowIndex st = Some ri then st
      else (hideRow ri st)
             \<lparr>sweepActive := Some row_k, sweepRowSet := insert k (sweepRowSet st)\<rparr>)"

definition handleRowHeaderMouseEnter :: "nat \<Rightarrow> cell \<Rightarrow> app \<Rightarrow> app" where
  "handleRowHeaderMouseEnter ri k st =
     (if sweepActive st = Some row_k \<and> k \<notin> sweepRowSet st
      then (hideRow ri st)\<lparr>sweepRowSet := insert k (sweepRowSet st)\<rparr>
      else st)"

text \<open>
  A press that starts a sweep: the primary button, outside the drag handle and the rename
  and visibility buttons.
\<close>

definition primaryPress :: "MouseEvent \<Rightarrow> bool" where
  "primaryPress e = (button e = 0 \<and> \<not> inDragHandle e \<and> \<not> inRenameBtn e \<and> \<not> inVisibilityBtn e)"

text \<open>
  The events of a gesture after the press: the pointer enters the header of a column or
  of a row. A row header carries its index and the key rendered at that index.
\<close>

datatype enterEvent =
    EnterSeries SeriesMeta
  | EnterRow nat

text \<open>
  Both effects have \<open>series\<close> among their dependencies and run after the render in which
  it was replaced. A column handler replaces it exactly when it calls
  \<open>toggleSeriesVisible\<close>; a row handler sets \<open>rows\<close>, on which no effect depends.
\<close>

definition pressSeries :: "SeriesMeta \<Rightarrow> MouseEvent \<Rightarrow> app \<Rightarrow> app" where
  "pressSeries s e st =
     (if primaryPress e \<and> editingSeriesId st \<noteq> Some (id_s s)
      then runEffects (handleSeriesHeaderMouseDown s e st)
      else handleSeriesHeaderMouseDown s e st)"

fun enterStep :: "enterEvent \<Rightarrow> app \<Rightarrow> app" where
  "enterStep (EnterSeries s) st =
     (if sweepActive st = Some series_k \<and> id_s s \<notin> sweepSeriesSet st
      then runEffects (handleSeriesHeaderMouseEnter s st)
      else handleSeriesHeaderMouseEnter s st)"
| "enterStep (EnterRow ri) st = handleRowHeaderMouseEnter ri (key (rows st ! ri)) st"

definition enterRun :: "enterEvent list \<Rightarrow> app \<Rightarrow> app" where
  "enterRun evs st = fold enterStep evs st"

text \<open>
  A sweep over column headers: the press on \<open>s\<close>, the headers entered while the button
  is held, and the release. The sweep over row headers starts on the row at \<open>ri\<close>.
\<close>

definition seriesSweep :: "SeriesMeta \<Rightarrow> MouseEvent \<Rightarrow> enterEvent list \<Rightarrow> app \<Rightarrow> app" where
  "seriesSweep s e evs st = endSweep (enterRun evs (pressSeries s e st))"

definition rowSweep :: "nat \<Rightarrow> MouseEvent \<Rightarrow> enterEvent list \<Rightarrow> app \<Rightarrow> app" where
  "rowSweep ri e evs st =
     endSweep (enterRun evs (handleRowHeaderMouseDown ri (key (rows st ! ri)) e st))"

text \<open>The ids and keys a list of enter events passes over.\<close>

definition enteredIds :: "enterEvent list \<Rightarrow> string set" where
  "enteredIds evs = set (concat (map (\<lambda>ev. case ev of EnterSeries s \<Rightarrow> [id_s s] | EnterRow _ \<Rightarrow> []) evs))"

definition enteredRows :: "enterEvent list \<Rightarrow> nat set" where
  "enteredRows evs = set (concat (map (\<lambda>ev. case ev of EnterSeries _ \<Rightarrow> [] | EnterRow ri \<Rightarrow> [ri]) evs))"

section \<open>Doubles\<close>

text \<open>
  The numbers of the histogram are IEEE doubles, and every sum, difference and quotient
  is rounded to the nearest double, a tie going to the even significand. A finite double
  is given by its value, a rational; a zero is kept without its sign.

  \<open>log2Floor\<close> is the exponent of a positive rational, \<open>\<lfloor>log\<^sub>2 a\<rfloor>\<close>; its
  fuel covers every quotient of two doubles, and where it runs out the rational lies so far
  outside the doubles that the rounding gives zero or overflows as it should.
\<close>

definition pow2 :: "int \<Rightarrow> rat" where
  "pow2 e = (if 0 \<le> e then 2 ^ nat e else 1 / 2 ^ nat (- e))"

fun log2Floor :: "nat \<Rightarrow> rat \<Rightarrow> int" where
  "log2Floor fuel a =
     (if fuel = 0 then 0
      else if 2 \<le> a then log2Floor (fuel - 1) (a / 2) + 1
      else if a < 1 then log2Floor (fuel - 1) (a * 2) - 1
      else 0)"

declare log2Floor.simps [simp del]

definition roundHalfEven :: "rat \<Rightarrow> int" where
  "roundHalfEven x =
     (let f = \<lfloor>x\<rfloor>; d = x - of_int f
      in if d < 1 / 2 then f else if 1 / 2 < d then f + 1 else if even f then f else f + 1)"

text \<open>
  The nearest number with a significand of 53 bits and an exponent of at least -1022,
  the subnormal numbers included; the exponent is not bounded above.
\<close>

definition roundDouble :: "rat \<Rightarrow> rat" where
  "roundDouble q =
     (if q = 0 then 0
      else
        let a = \<bar>q\<bar>;
            e = max (log2Floor 2200 a) (- 1022);
            ulp = pow2 (e - 52);
            r = of_int (roundHalfEven (a / ulp)) * ulp
        in if q < 0 then - r else r)"

definition maxDouble :: rat where
  "maxDouble = (2 ^ 53 - 1) * 2 ^ 971"

datatype jsnum = Fin rat | PInf | NInf | NaN

text \<open>The double a real result is rounded to; beyond the largest double it is an infinity.\<close>

definition rnd :: "rat \<Rightarrow> jsnum" where
  "rnd q =
     (let r = roundDouble q
      in if maxDouble < r then PInf else if r < - maxDouble then NInf else Fin r)"

text \<open>\<open>a - b\<close> for two finite doubles.\<close>

definition dsub :: "rat \<Rightarrow> rat \<Rightarrow> jsnum" where
  "dsub a b = rnd (a - b)"

text \<open>
  \<open>x / y\<close>. A zero divisor is read as the positive zero; the divisors of the histogram
  are the bin count, at least one, and the bin size, which is never zero.
\<close>

definition ddiv :: "jsnum \<Rightarrow> jsnum \<Rightarrow> jsnum" where
  "ddiv x y =
     (case x of
        NaN \<Rightarrow> NaN
      | Fin a \<Rightarrow>
          (case y of
             NaN \<Rightarrow> NaN
           | Fin b \<Rightarrow>
               if b = 0 then (if a = 0 then NaN else if 0 < a then PInf else NInf)
               else rnd (a / b)
           | PInf \<Rightarrow> Fin 0
           | NInf \<Rightarrow> Fin 0)
      | PInf \<Rightarrow>
          (case y of
             NaN \<Rightarrow> NaN
           | Fin b \<Rightarrow> if 0 \<le> b then PInf else NInf
           | PInf \<Rightarrow> NaN
           | NInf \<Rightarrow> NaN)
      | NInf \<Rightarrow>
          (case y of
             NaN \<Rightarrow> NaN
           | Fin b \<Rightarrow> if 0 \<le> b then NInf else PInf
           | PInf \<Rightarrow> NaN
           | NInf \<Rightarrow> NaN))"

text \<open>\<open>Math.floor(x)\<close>; the floor of a finite double is a double.\<close>

definition floorD :: "jsnum \<Rightarrow> jsnum" where
  "floorD x = (case x of Fin a \<Rightarrow> Fin (of_int \<lfloor>a\<rfloor>) | PInf \<Rightarrow> PInf | NInf \<Rightarrow> NInf | NaN \<Rightarrow> NaN)"

text \<open>\<open>x >= b\<close> for a finite \<open>b\<close>; a comparison with \<open>NaN\<close> is false.\<close>

definition geD :: "jsnum \<Rightarrow> rat \<Rightarrow> bool" where
  "geD x b = (case x of Fin a \<Rightarrow> b \<le> a | PInf \<Rightarrow> True | NInf \<Rightarrow> False | NaN \<Rightarrow> False)"

section \<open>Histogram binning\<close>

text \<open>The \<open>onChange\<close> of the chart type select.\<close>

definition setChartType :: "ChartType \<Rightarrow> app \<Rightarrow> app" where
  "setChartType t st = st\<lparr>chartType := t\<rparr>"

text \<open>
  The Bins box is shown while the chart type is \<open>histogram\<close>. Its \<open>onChange\<close>, \<open>n\<close> being \<open>Number(e.target.value)\<close>:
  \<open>setHistogramBins(Math.max(1, Math.min(50, n || 10)))\<close>. Zero and \<open>NaN\<close> are
  falsy. The number is bounded and is not rounded to an integer.
\<close>

definition onBinsInput :: "jsnum \<Rightarrow> app \<Rightarrow> app" where
  "onBinsInput n st =
     st\<lparr>histogramBins :=
          (case n of
             Fin q \<Rightarrow> if q = 0 then 10 else max 1 (min 50 q)
           | PInf \<Rightarrow> 50
           | NInf \<Rightarrow> 1
           | NaN \<Rightarrow> 10)\<rparr>"

definition activeRows :: "app \<Rightarrow> DataRow list" where
  "activeRows st = filter (\<lambda>r. \<not> hidden r) (rows st)"

text \<open>
  \<open>chartRows.map(r => r[histogramColumn]).filter(v => typeof v === 'number')\<close>.
\<close>

definition histogramValues :: "app \<Rightarrow> rat list" where
  "histogramValues st =
     List.map_filter
       (\<lambda>r. case getProp r (histogramColumn st) of Some (Num q) \<Rightarrow> Some q | _ \<Rightarrow> None)
       (activeRows st)"

text \<open>\<open>Math.min(...values)\<close> and \<open>Math.max(...values)\<close> on a list that is not empty.\<close>

definition minOf :: "rat list \<Rightarrow> rat" where
  "minOf vs = fold min (tl vs) (hd vs)"

definition maxOf :: "rat list \<Rightarrow> rat" where
  "maxOf vs = fold max (tl vs) (hd vs)"

text \<open>\<open>binCount = Math.max(1, histogramBins)\<close>.\<close>

definition binCountOf :: "app \<Rightarrow> rat" where
  "binCountOf st = max 1 (histogramBins st)"

text \<open>\<open>(max - min) / binCount || 1\<close>: a quotient that is zero or \<open>NaN\<close> gives one.\<close>

definition binSizeOf :: "rat \<Rightarrow> rat \<Rightarrow> rat \<Rightarrow> jsnum" where
  "binSizeOf lo hi binCount =
     (let q = ddiv (dsub hi lo) (Fin binCount) in if q = Fin 0 \<or> q = NaN then Fin 1 else q)"

text \<open>
  \<open>let idx = Math.floor((v - min) / binSize); if (idx >= binCount) idx = binCount - 1\<close>.
\<close>

definition binIndex :: "rat \<Rightarrow> jsnum \<Rightarrow> rat \<Rightarrow> rat \<Rightarrow> jsnum" where
  "binIndex lo binSize binCount v =
     (let idx = floorD (ddiv (dsub v lo) binSize)
      in if geD idx binCount then rnd (binCount - 1) else idx)"

text \<open>
  \<open>bins[idx].count += 1\<close>, the bins given by their counts. \<open>bins[idx]\<close> is an element
  of the array when \<open>idx\<close> is an integer from zero to below its length; otherwise it is
  \<open>undefined\<close> and the statement throws a \<open>TypeError\<close>, the value \<open>None\<close> here.
\<close>

definition bumpBin :: "jsnum \<Rightarrow> nat list \<Rightarrow> nat list option" where
  "bumpBin idx counts =
     (case idx of
        Fin a \<Rightarrow>
          if a = of_int \<lfloor>a\<rfloor> \<and> 0 \<le> a \<and> nat \<lfloor>a\<rfloor> < length counts
          then Some (counts[nat \<lfloor>a\<rfloor> := counts ! nat \<lfloor>a\<rfloor> + 1])
          else None
      | PInf \<Rightarrow> None
      | NInf \<Rightarrow> None
      | NaN \<Rightarrow> None)"

text \<open>The loop \<open>values.forEach\<close>.\<close>

fun fillBins :: "rat \<Rightarrow> jsnum \<Rightarrow> rat \<Rightarrow> rat list \<Rightarrow> nat list \<Rightarrow> nat list option" where
  "fillBins lo binSize binCount [] counts = Some counts"
| "fillBins lo binSize binCount (v # vs) counts =
     (case bumpBin (binIndex lo binSize binCount v) counts of
        None \<Rightarrow> None
      | Some counts' \<Rightarrow> fillBins lo binSize binCount vs counts')"

datatype histogramView =
    NoNumericData string
  | Counts "nat list"
  | TypeError

text \<open>
  The branch of \<open>renderChartContents\<close> taken when the chart type is \<open>histogram\<close>,
  up to the end of the counting loop:
  the message when no value is a number, the counts of the bins, or the error thrown.
  \<open>Array.from({ length: binCount })\<close> makes an array of \<open>\<lfloor>binCount\<rfloor>\<close> bins. The labels
  are written into the bins after the loop and change no count.
\<close>

definition histogramCounts :: "app \<Rightarrow> histogramView" where
  "histogramCounts st =
     (let vals = histogramValues st in
      if vals = [] then NoNumericData (histogramColumn st)
      else
        let lo = minOf vals;
            hi = maxOf vals;
            binCount = binCountOf st;
            binSize = binSizeOf lo hi binCount
        in case fillBins lo binSize binCount vals (replicate (nat \<lfloor>binCount\<rfloor>) 0) of
             None \<Rightarrow> TypeError
           | Some counts \<Rightarrow> Counts counts)"

section \<open>The initial state\<close>

definition palette :: "string list" where
  "palette = [''#ef4444'', ''#f59e0b'', ''#3b82f6'', ''#10b981'', ''#6366f1'', ''#ec4899'', ''#14b8a6'']"

definition mkRow :: "rat \<Rightarrow> rat \<Rightarrow> rat \<Rightarrow> rat \<Rightarrow> rat \<Rightarrow> rat \<Rightarrow> DataRow" where
  "mkRow k revenue cogs opex rd np =
     \<lparr>key = Num k, hidden = False,
      cells = [(''Revenue'', Num revenue), (''COGS'', Num cogs),
               (''Operating Expenses'', Num opex), (''R&D'', Num rd),
               (''Net Profit'', Num np)]\<rparr>"

definition initialRows :: "DataRow list" where
  "initialRows =
     [mkRow 2019 120 48 30 12 30, mkRow 2020 135 53 33 14 35, mkRow 2021 155 60 36 16 43,
      mkRow 2022 178 68 40 18 52, mkRow 2023 205 78 44 20 63, mkRow 2024 236 90 49 22 75,
      mkRow 2025 264 100 53 24 87]"

definition mkSeries :: "string \<Rightarrow> nat \<Rightarrow> SeriesMeta" where
  "mkSeries i n = \<lparr>id_s = i, label = i, color = palette ! n, visible = True\<rparr>"

definition initialSeries :: "SeriesMeta list" where
  "initialSeries =
     [mkSeries ''Revenue'' 0, mkSeries ''COGS'' 1, mkSeries ''Operating Expenses'' 2,
      mkSeries ''R&D'' 3, mkSeries ''Net Profit'' 4]"

definition initialApp :: app where
  "initialApp =
     \<lparr>rows = initialRows, series = initialSeries,
      selectedSeriesIds = visibleIds initialSeries,
      labelColumn = ''key'', chartType = line,
      scatterXColumn = ''key'', scatterYColumn = ''Revenue'',
      scatterSizeColumn = '''', scatterColorColumn = '''', barColorColumn = '''',
      pieSeriesColumn = ''Revenue'', histogramColumn = ''Revenue'', histogramBins = 10,
      editingSeriesId = None, editingValue = '''',
      dragSeriesId = None, dragRowKey = None, rowDragOverKey = None, rowDragPosition = None,
      editingRowIndex = None, editingRowValue = '''',
      sweepActive = None, sweepRowSet = {}, sweepSeriesSet = {}\<rparr>"

section \<open>Example states\<close>

text \<open>A registry of the two columns Revenue and COGS, the scatter chart plotting COGS.\<close>

definition twoColumns :: app where
  "twoColumns =
     initialApp\<lparr>series := [mkSeries ''Revenue'' 0, mkSeries ''COGS'' 1],
                selectedSeriesIds := [''Revenue'', ''COGS''],
                chartType := scatter, scatterYColumn := ''COGS''\<rparr>"

text \<open>The same registry, the scatter chart plotting Revenue and sizing its points by COGS.\<close>

definition sizeByCogs :: app where
  "sizeByCogs = twoColumns\<lparr>scatterYColumn := ''Revenue'', scatterSizeColumn := ''COGS''\<rparr>"

text \<open>Revenue is hidden and is the only selected series.\<close>

definition bulkHidden :: app where
  "bulkHidden =
     initialApp\<lparr>series := map (\<lambda>s. if id_s s = ''Revenue'' then s\<lparr>visible := False\<rparr> else s)
                             initialSeries,
                selectedSeriesIds := [''Revenue'']\<rparr>"


text \<open>A slot dangles when it is not empty and names a column whose flag is false.\<close>

definition dangling :: "SeriesMeta list \<Rightarrow> string \<Rightarrow> bool" where
  "dangling ss slot = (slot \<noteq> [] \<and> list_ex (\<lambda>s. id_s s = slot \<and> \<not> visible s) ss)"

text \<open>The registry of the three columns Revenue, COGS and R&D.\<close>

definition threeColumns :: app where
  "threeColumns =
     initialApp\<lparr>series := [mkSeries ''Revenue'' 0, mkSeries ''COGS'' 1, mkSeries ''R&D'' 3]\<rparr>"

text \<open>The list with the elements at \<open>i\<close> and \<open>i + 1\<close> exchanged.\<close>

definition swapAdj :: "nat \<Rightarrow> 'a list \<Rightarrow> 'a list" where
  "swapAdj i xs = xs[i := xs ! Suc i, Suc i := xs ! i]"

definition plainPress :: MouseEvent where
  "plainPress = \<lparr>button = 0, inDragHandle = False, inRenameBtn = False, inVisibilityBtn = False\<rparr>"

text \<open>One toggle of a column and of a row.\<close>

definition flipVisible :: "SeriesMeta \<Rightarrow> SeriesMeta" where
  "flipVisible s = s\<lparr>visible := \<not> visible s\<rparr>"

definition flipHidden :: "DataRow \<Rightarrow> DataRow" where
  "flipHidden r = r\<lparr>hidden := \<not> hidden r\<rparr>"

text \<open>A row store of the two rows keyed 2019 and 2020.\<close>

definition twoRows :: app where
  "twoRows = initialApp\<lparr>rows := [mkRow 2019 120 48 30 12 30, mkRow 2020 135 53 33 14 35]\<rparr>"

text \<open>Ten rows whose Revenue cells hold 1 to 10, binned into five bins.\<close>

definition valueRow :: "rat \<Rightarrow> DataRow" where
  "valueRow v = \<lparr>key = Num v, hidden = False, cells = [(''Revenue'', Num v)]\<rparr>"

definition tenValues :: app where
  "tenValues =
     initialApp\<lparr>rows := map valueRow [1, 2, 3, 4, 5, 6, 7, 8, 9, 10], histogramBins := 5\<rparr>"

text \<open>
  The initial rows after the header of the second row has been renamed to \<open>2019.0\<close>:
  the first two rows both have the key 2019.
\<close>

definition sharedKey :: app where
  "sharedKey = renameRowKey 1 ''2019.0'' initialApp"

text \<open>
  Three rows whose Revenue cells hold 0, the double written \<open>0.3\<close> and 1, binned into the
  ten bins of the initial state.
\<close>

definition tenths :: app where
  "tenths = initialApp\<lparr>rows := map valueRow [0, roundDouble (3 / 10), 1]\<rparr>"

section \<open>What the effects leave alone\<close>

lemma series_selectionEffect [simp]: "series (selectionEffect st) = series st"
  by (simp add: selectionEffect_def Let_def)

lemma series_reconciler [simp]: "series (reconciler st) = series st"
  by (simp add: reconciler_def Let_def)

lemma series_runEffects [simp]: "series (runEffects st) = series st"
  by (simp add: runEffects_def)

lemma selected_reconciler [simp]: "selectedSeriesIds (reconciler st) = selectedSeriesIds st"
  by (simp add: reconciler_def Let_def)

lemma slots_selectionEffect [simp]:
  "pieSeriesColumn (selectionEffect st) = pieSeriesColumn st"
  "histogramColumn (selectionEffect st) = histogramColumn st"
  "scatterYColumn (selectionEffect st) = scatterYColumn st"
  "labelColumn (selectionEffect st) = labelColumn st"
  "chartType (selectionEffect st) = chartType st"
  by (simp_all add: selectionEffect_def Let_def)

lemma runEffects_keeps [simp]:
  "rows (runEffects st) = rows st"
  "editingSeriesId (runEffects st) = editingSeriesId st"
  "editingValue (runEffects st) = editingValue st"
  "dragSeriesId (runEffects st) = dragSeriesId st"
  "dragRowKey (runEffects st) = dragRowKey st"
  "rowDragOverKey (runEffects st) = rowDragOverKey st"
  "rowDragPosition (runEffects st) = rowDragPosition st"
  "editingRowIndex (runEffects st) = editingRowIndex st"
  "editingRowValue (runEffects st) = editingRowValue st"
  "sweepActive (runEffects st) = sweepActive st"
  "sweepRowSet (runEffects st) = sweepRowSet st"
  "sweepSeriesSet (runEffects st) = sweepSeriesSet st"
  by (simp_all add: runEffects_def reconciler_def selectionEffect_def Let_def)


section \<open>The reconciler\<close>

lemma visible_not_dangling:
  "distinct (map id_s ss) \<Longrightarrow> slot \<in> set (visibleIds ss) \<Longrightarrow> \<not> dangling ss slot"
  by (auto simp: dangling_def visibleIds_def list_ex_iff distinct_map inj_on_def)

text \<open>
  The three series slots the reconciler writes are repaired by one pass, in a registry
  whose ids are distinct.
\<close>

lemma reconciler_repairs:
  assumes "distinct (map id_s (series st))"
  shows "\<not> dangling (series (reconciler st)) (pieSeriesColumn (reconciler st))"
    and "\<not> dangling (series (reconciler st)) (histogramColumn (reconciler st))"
    and "\<not> dangling (series (reconciler st)) (scatterYColumn (reconciler st))"
proof -
  have f: "firstOrEmpty vis = [] \<or> firstOrEmpty vis \<in> set vis" for vis
    by (cases vis) (simp_all add: firstOrEmpty_def)
  have e: "\<not> dangling ss []" for ss by (simp add: dangling_def)
  show "\<not> dangling (series (reconciler st)) (pieSeriesColumn (reconciler st))"
    using assms f [of "visibleIds (series st)"] e visible_not_dangling [of "series st"]
    by (auto simp: reconciler_def Let_def)
  show "\<not> dangling (series (reconciler st)) (histogramColumn (reconciler st))"
    using assms f [of "visibleIds (series st)"] e visible_not_dangling [of "series st"]
    by (auto simp: reconciler_def Let_def)
  show "\<not> dangling (series (reconciler st)) (scatterYColumn (reconciler st))"
    using assms f [of "visibleIds (series st)"] e visible_not_dangling [of "series st"]
    by (auto simp: reconciler_def Let_def)
qed

text \<open>
  Claim C1. After the reconciler pass that follows a visibility change, no non-empty
  mapping slot should name a hidden column, the size, colour and bar-colour slots
  included. The reconciler writes only the pie, histogram, Y-axis and label slots: with
  Revenue and COGS visible and the points sized by COGS, hiding COGS and running the
  effects leaves \<open>scatterSizeColumn\<close> naming the hidden column COGS.
\<close>

theorem size_slot_left_dangling:
  "dangling (series (runEffects (toggleSeriesVisible ''COGS'' sizeByCogs)))
            (scatterSizeColumn (runEffects (toggleSeriesVisible ''COGS'' sizeByCogs)))"
  by (simp add: dangling_def runEffects_def reconciler_def selectionEffect_def
      toggleSeriesVisible_def sizeByCogs_def twoColumns_def initialApp_def mkSeries_def
      visibleIds_def Let_def)

text \<open>
  Claim C2. A slot that names a column which is not visible is reset by the reconciler:
  the pie, histogram and Y-axis slots to the first visible column id in registry order,
  or to the empty string when no column is visible; the label slot to \<open>key\<close>. With
  Revenue and COGS visible and the Y axis on COGS, hiding COGS puts the Y axis on Revenue
  and the hidden-series warning is not shown.
\<close>

theorem reconciler_resets:
  "(pieSeriesColumn st \<notin> set (visibleIds (series st)) \<longrightarrow>
      pieSeriesColumn (reconciler st) =
        (if visibleIds (series st) = [] then [] else hd (visibleIds (series st))))
   \<and> (histogramColumn st \<notin> set (visibleIds (series st)) \<longrightarrow>
      histogramColumn (reconciler st) =
        (if visibleIds (series st) = [] then [] else hd (visibleIds (series st))))
   \<and> (scatterYColumn st \<notin> set (visibleIds (series st)) \<longrightarrow>
      scatterYColumn (reconciler st) =
        (if visibleIds (series st) = [] then [] else hd (visibleIds (series st))))
   \<and> (labelColumn st \<notin> set (visibleIds (series st)) \<longrightarrow> labelColumn (reconciler st) = ''key'')
   \<and> scatterYColumn (runEffects (toggleSeriesVisible ''COGS'' twoColumns)) = ''Revenue''
   \<and> \<not> hiddenYWarning (runEffects (toggleSeriesVisible ''COGS'' twoColumns))"
proof -
  have f: "firstOrEmpty vis = (if vis = [] then [] else hd vis)" for vis
    by (cases vis) (simp_all add: firstOrEmpty_def)
  have ex: "scatterYColumn (runEffects (toggleSeriesVisible ''COGS'' twoColumns)) = ''Revenue''"
    by (simp add: runEffects_def reconciler_def toggleSeriesVisible_def twoColumns_def
        initialApp_def mkSeries_def visibleIds_def firstOrEmpty_def Let_def)
  have warn: "\<not> hiddenYWarning (runEffects (toggleSeriesVisible ''COGS'' twoColumns))"
    unfolding hiddenYWarning_def ex
    by (simp add: toggleSeriesVisible_def twoColumns_def initialApp_def mkSeries_def)
  show ?thesis
    using ex warn by (simp add: reconciler_def Let_def f)
qed

theorem reconciler_resets_witness:
  "scatterYColumn (toggleSeriesVisible ''COGS'' twoColumns) = ''COGS''
   \<and> visibleIds (series (toggleSeriesVisible ''COGS'' twoColumns)) = [''Revenue'']
   \<and> scatterYColumn (reconciler (toggleSeriesVisible ''COGS'' twoColumns)) = ''Revenue''"
proof -
  have y: "scatterYColumn (toggleSeriesVisible ''COGS'' twoColumns) = ''COGS''"
    by (simp add: toggleSeriesVisible_def twoColumns_def initialApp_def)
  have vis: "visibleIds (series (toggleSeriesVisible ''COGS'' twoColumns)) = [''Revenue'']"
    by (simp add: toggleSeriesVisible_def twoColumns_def initialApp_def mkSeries_def
        visibleIds_def)
  have "scatterYColumn (toggleSeriesVisible ''COGS'' twoColumns)
          \<notin> set (visibleIds (series (toggleSeriesVisible ''COGS'' twoColumns)))"
    unfolding y vis by simp
  with reconciler_resets [of "toggleSeriesVisible ''COGS'' twoColumns"]
  have "scatterYColumn (reconciler (toggleSeriesVisible ''COGS'' twoColumns)) =
          (if visibleIds (series (toggleSeriesVisible ''COGS'' twoColumns)) = [] then []
           else hd (visibleIds (series (toggleSeriesVisible ''COGS'' twoColumns))))"
    by blast
  then show ?thesis using y vis by simp
qed

section \<open>The multi-series selection\<close>

text \<open>
  Claim C3. The selection effect keeps every selected id whose column is visible, in the
  order it had; when none is visible it selects the first \<open>min 3 n\<close> visible ids in
  registry order, \<open>n\<close> the number of visible columns; so the selection is not empty
  while a column is visible.
\<close>

theorem selection_reconciled:
  "(\<forall>i \<in> set (selectedSeriesIds st).
       i \<in> set (visibleIds (series st)) \<longrightarrow> i \<in> set (selectedSeriesIds (selectionEffect st)))
   \<and> (filter (\<lambda>i. i \<in> set (visibleIds (series st))) (selectedSeriesIds st) \<noteq> [] \<longrightarrow>
        selectedSeriesIds (selectionEffect st) =
          filter (\<lambda>i. i \<in> set (visibleIds (series st))) (selectedSeriesIds st))
   \<and> (filter (\<lambda>i. i \<in> set (visibleIds (series st))) (selectedSeriesIds st) = [] \<longrightarrow>
        selectedSeriesIds (selectionEffect st) =
          take (min 3 (length (visibleIds (series st)))) (visibleIds (series st)))
   \<and> (visibleIds (series st) \<noteq> [] \<longrightarrow> selectedSeriesIds (selectionEffect st) \<noteq> [])"
  by (auto simp: selectionEffect_def Let_def filter_empty_conv)

theorem selection_reconciled_witness:
  "selectedSeriesIds (selectionEffect bulkHidden) = [''COGS'', ''Operating Expenses'', ''R&D'']
   \<and> ''COGS'' \<in> set (selectedSeriesIds (selectionEffect (toggleSeriesVisible ''Revenue'' initialApp)))"
proof -
  have vis: "visibleIds (series bulkHidden) =
               [''COGS'', ''Operating Expenses'', ''R&D'', ''Net Profit'']"
    by (simp add: bulkHidden_def initialApp_def initialSeries_def mkSeries_def visibleIds_def)
  have none: "filter (\<lambda>i. i \<in> set (visibleIds (series bulkHidden)))
                (selectedSeriesIds bulkHidden) = []"
    unfolding vis by (simp add: bulkHidden_def initialApp_def)
  have a: "selectedSeriesIds (selectionEffect bulkHidden) =
             [''COGS'', ''Operating Expenses'', ''R&D'']"
    using selection_reconciled [of bulkHidden] none by (simp add: vis)
  have sel: "''COGS'' \<in> set (selectedSeriesIds (toggleSeriesVisible ''Revenue'' initialApp))"
    by (simp add: toggleSeriesVisible_def initialApp_def initialSeries_def mkSeries_def
        visibleIds_def)
  have shown: "''COGS'' \<in> set (visibleIds (series (toggleSeriesVisible ''Revenue'' initialApp)))"
    by (simp add: toggleSeriesVisible_def initialApp_def initialSeries_def mkSeries_def
        visibleIds_def)
  have b: "''COGS'' \<in> set (selectedSeriesIds
             (selectionEffect (toggleSeriesVisible ''Revenue'' initialApp)))"
    using selection_reconciled [of "toggleSeriesVisible ''Revenue'' initialApp"] sel shown
    by blast
  from a b show ?thesis by simp
qed



section \<open>Reordering\<close>

lemma findIndex_None: "findIndex P xs = None \<longleftrightarrow> (\<forall>x \<in> set xs. \<not> P x)"
  by (induction xs) auto

lemma findIndex_Some: "findIndex P xs = Some i \<Longrightarrow> i < length xs \<and> P (xs ! i)"
  by (induction xs arbitrary: i) (auto split: if_splits)

lemma findIndex_distinct:
  "distinct (map f xs) \<Longrightarrow> i < length xs \<Longrightarrow> findIndex (\<lambda>x. f x = f (xs ! i)) xs = Some i"
proof (induction xs arbitrary: i)
  case Nil
  then show ?case by simp
next
  case (Cons x xs)
  show ?case
  proof (cases i)
    case 0
    then show ?thesis by simp
  next
    case (Suc j)
    with Cons.prems have "f x \<noteq> f (xs ! j)" by auto
    with Cons Suc show ?thesis by simp
  qed
qed

lemma length_spliceOut: "i < length xs \<Longrightarrow> length (spliceOut i xs) = length xs - 1"
  by (simp add: spliceOut_def)

lemma length_spliceIn: "length (spliceIn i x xs) = Suc (length xs)"
  by (simp add: spliceIn_def)

lemma nth_spliceIn: "i \<le> length xs \<Longrightarrow> spliceIn i x xs ! i = x"
  by (simp add: spliceIn_def nth_append)

lemma filter_spliceIn: "\<not> P x \<Longrightarrow> filter P (spliceIn i x xs) = filter P xs"
proof -
  assume "\<not> P x"
  then have "filter P (spliceIn i x xs) = filter P (take i xs @ drop i xs)"
    unfolding spliceIn_def filter_append by simp
  then show ?thesis by simp
qed

lemma filter_spliceOut: "i < length xs \<Longrightarrow> \<not> P (xs ! i) \<Longrightarrow> filter P (spliceOut i xs) = filter P xs"
proof -
  assume a: "i < length xs" "\<not> P (xs ! i)"
  have "filter P xs = filter P (take i xs @ xs ! i # drop (Suc i) xs)"
    using a(1) by (simp add: id_take_nth_drop [symmetric])
  also have "\<dots> = filter P (take i xs @ drop (Suc i) xs)"
    unfolding filter_append using a(2) by simp
  finally show ?thesis by (simp add: spliceOut_def)
qed

lemma move_down: "Suc i < length xs \<Longrightarrow> spliceIn (Suc i) (xs ! i) (spliceOut i xs) = swapAdj i xs"
proof (induction i arbitrary: xs)
  case 0
  then obtain a b zs where "xs = a # b # zs"
    by (cases xs; cases "tl xs") auto
  then show ?case by (simp add: spliceIn_def spliceOut_def swapAdj_def)
next
  case (Suc i)
  then obtain a ys where xs: "xs = a # ys" by (cases xs) auto
  with Suc.prems have "Suc i < length ys" by simp
  from Suc.IH [OF this] show ?case
    by (simp add: xs spliceIn_def spliceOut_def swapAdj_def)
qed

lemma move_up: "Suc i < length xs \<Longrightarrow> spliceIn i (xs ! Suc i) (spliceOut (Suc i) xs) = swapAdj i xs"
proof (induction i arbitrary: xs)
  case 0
  then obtain a b zs where "xs = a # b # zs"
    by (cases xs; cases "tl xs") auto
  then show ?case by (simp add: spliceIn_def spliceOut_def swapAdj_def)
next
  case (Suc i)
  then obtain a ys where xs: "xs = a # ys" by (cases xs) auto
  with Suc.prems have "Suc i < length ys" by simp
  from Suc.IH [OF this] show ?case
    by (simp add: xs spliceIn_def spliceOut_def swapAdj_def)
qed

lemma swapAdj_simps:
  "length (swapAdj i xs) = length xs"
  "Suc i < length xs \<Longrightarrow> swapAdj i xs ! i = xs ! Suc i"
  "Suc i < length xs \<Longrightarrow> swapAdj i xs ! Suc i = xs ! i"
  by (simp_all add: swapAdj_def)

lemma swapAdj_twice: "Suc i < length xs \<Longrightarrow> swapAdj i (swapAdj i xs) = xs"
  by (simp add: swapAdj_def list_update_swap [of i "Suc i"])

lemma map_swapAdj: "Suc i < length xs \<Longrightarrow> map f (swapAdj i xs) = swapAdj i (map f xs)"
  by (simp add: swapAdj_def map_update)

lemma distinct_swapAdj: "Suc i < length xs \<Longrightarrow> distinct xs \<Longrightarrow> distinct (swapAdj i xs)"
  unfolding swapAdj_def
  by (metis Suc_lessD distinct_swap)

lemma series_dragDropSeries:
  "series (dragDropSeries sourceId targetId st) =
     (if sourceId = [] \<or> sourceId = targetId then series st
      else reorderSeries sourceId targetId (series st))"
  by (simp add: dragDropSeries_def onSeriesDrop_def onSeriesDragStart_def)

lemma rows_dragDropRow:
  "editingRowIndex st = None \<Longrightarrow>
   rows (dragDropRow sourceKey targetKey pos st) = reorderRows sourceKey targetKey (Some pos) (rows st)"
  by (simp add: dragDropRow_def onRowDrop_def onRowDragOver_def onRowDragStart_def
      clearRowDragState_def)

lemma editing_dragDropRow [simp]:
  "editingRowIndex (dragDropRow sourceKey targetKey pos st) = editingRowIndex st"
  by (simp add: dragDropRow_def onRowDrop_def onRowDragOver_def onRowDragStart_def
      clearRowDragState_def split: option.splits)

lemma reorderSeries_idx:
  "findIndex (\<lambda>s. id_s s = a) xs = Some si \<Longrightarrow> findIndex (\<lambda>s. id_s s = b) xs = Some ti \<Longrightarrow>
   reorderSeries a b xs = spliceIn ti (xs ! si) (spliceOut si xs)"
  by (simp add: reorderSeries_def)

lemma reorderRows_idx:
  "findIndex (\<lambda>r. key r = k) xs = Some si \<Longrightarrow> findIndex (\<lambda>r. key r = l) xs = Some ti \<Longrightarrow>
   reorderRows k l pos xs =
     (let insertIndex0 = ti + (if pos = Some below then 1 else 0);
          insertIndex = (if si < insertIndex0 then insertIndex0 - 1 else insertIndex0)
      in if insertIndex = si then xs else spliceIn insertIndex (xs ! si) (spliceOut si xs))"
  by (simp add: reorderRows_def)

text \<open>
  Claim C8. Dropping the dragged column \<open>sourceId\<close> on \<open>targetId\<close> changes nothing
  when the two ids are equal or one of them is not in the registry. Otherwise the moved
  column stands at the index the target had, the registry keeps its length, and the
  columns other than the moved one keep their relative order. Dropping COGS on Revenue in
  the registry Revenue, COGS, R&D gives COGS, Revenue, R&D.
\<close>

theorem series_reorder:
  "((sourceId = targetId \<or> sourceId \<notin> set (map id_s (series st))
       \<or> targetId \<notin> set (map id_s (series st))) \<longrightarrow>
      series (dragDropSeries sourceId targetId st) = series st)
   \<and> (sourceId \<noteq> [] \<and> sourceId \<noteq> targetId
        \<and> findIndex (\<lambda>s. id_s s = sourceId) (series st) = Some srcIdx
        \<and> findIndex (\<lambda>s. id_s s = targetId) (series st) = Some tgtIdx \<longrightarrow>
        length (series (dragDropSeries sourceId targetId st)) = length (series st)
        \<and> series (dragDropSeries sourceId targetId st) ! tgtIdx = series st ! srcIdx
        \<and> filter (\<lambda>s. id_s s \<noteq> sourceId) (series (dragDropSeries sourceId targetId st)) =
            filter (\<lambda>s. id_s s \<noteq> sourceId) (series st))
   \<and> map id_s (series (dragDropSeries ''COGS'' ''Revenue'' threeColumns)) =
        [''COGS'', ''Revenue'', ''R&D'']"
proof (intro conjI impI)
  assume "sourceId = targetId \<or> sourceId \<notin> set (map id_s (series st))
       \<or> targetId \<notin> set (map id_s (series st))"
  then show "series (dragDropSeries sourceId targetId st) = series st"
    by (auto simp: series_dragDropSeries reorderSeries_def findIndex_None
        split: option.splits dest: findIndex_Some)
next
  assume a: "sourceId \<noteq> [] \<and> sourceId \<noteq> targetId
        \<and> findIndex (\<lambda>s. id_s s = sourceId) (series st) = Some srcIdx
        \<and> findIndex (\<lambda>s. id_s s = targetId) (series st) = Some tgtIdx"
  then have eq: "series (dragDropSeries sourceId targetId st) =
      spliceIn tgtIdx (series st ! srcIdx) (spliceOut srcIdx (series st))"
    by (simp add: series_dragDropSeries reorderSeries_def)
  from a have s: "srcIdx < length (series st)" "id_s (series st ! srcIdx) = sourceId"
    using findIndex_Some [of "\<lambda>s. id_s s = sourceId" "series st" srcIdx] by simp_all
  from a have t: "tgtIdx < length (series st)"
    using findIndex_Some [of "\<lambda>s. id_s s = targetId" "series st" tgtIdx] by simp
  show "length (series (dragDropSeries sourceId targetId st)) = length (series st)"
    using s(1) by (simp add: eq length_spliceIn length_spliceOut)
  show "series (dragDropSeries sourceId targetId st) ! tgtIdx = series st ! srcIdx"
    using s(1) t by (simp add: eq nth_spliceIn length_spliceOut)
  show "filter (\<lambda>s. id_s s \<noteq> sourceId) (series (dragDropSeries sourceId targetId st)) =
            filter (\<lambda>s. id_s s \<noteq> sourceId) (series st)"
    using s by (simp add: eq filter_spliceIn filter_spliceOut)
next
  show "map id_s (series (dragDropSeries ''COGS'' ''Revenue'' threeColumns)) =
        [''COGS'', ''Revenue'', ''R&D'']"
    by (simp add: series_dragDropSeries reorderSeries_def threeColumns_def initialApp_def
        mkSeries_def spliceIn_def spliceOut_def)
qed

theorem series_reorder_witness:
  "id_s (series (dragDropSeries ''COGS'' ''Revenue'' threeColumns) ! 0) = ''COGS''
   \<and> length (series (dragDropSeries ''COGS'' ''Revenue'' threeColumns)) = 3
   \<and> series (dragDropSeries ''COGS'' ''COGS'' threeColumns) = series threeColumns"
proof -
  have src: "findIndex (\<lambda>s. id_s s = ''COGS'') (series threeColumns) = Some 1"
    by (simp add: threeColumns_def initialApp_def mkSeries_def)
  have tgt: "findIndex (\<lambda>s. id_s s = ''Revenue'') (series threeColumns) = Some 0"
    by (simp add: threeColumns_def initialApp_def mkSeries_def)
  have ne: "''COGS'' \<noteq> [] \<and> ''COGS'' \<noteq> ''Revenue''" by simp
  from series_reorder [of "''COGS''" "''Revenue''" threeColumns 1 0] src tgt ne
  have "length (series (dragDropSeries ''COGS'' ''Revenue'' threeColumns)) = length (series threeColumns)
      \<and> series (dragDropSeries ''COGS'' ''Revenue'' threeColumns) ! 0 = series threeColumns ! 1"
    by blast
  moreover from series_reorder [of "''COGS''" "''COGS''" threeColumns 0 0]
  have "series (dragDropSeries ''COGS'' ''COGS'' threeColumns) = series threeColumns"
    by blast
  ultimately show ?thesis
    by (simp add: threeColumns_def initialApp_def mkSeries_def)
qed

text \<open>
  In a registry of distinct, non-empty ids, dropping a column on its neighbour exchanges
  the two, and dropping it on that neighbour again restores the order, in both
  directions. In a row store of distinct keys with no header being renamed, dropping a
  row on the lower half of the row below it, or on the upper half of the row above it,
  exchanges the two, and the drop on the same neighbour with the other half restores the
  order.
\<close>

lemma adjacent_move_round_trip:
  "(distinct (map id_s (series st)) \<and> [] \<notin> set (map id_s (series st))
      \<and> Suc i < length (series st)
      \<and> a = id_s (series st ! i) \<and> b = id_s (series st ! Suc i) \<longrightarrow>
        series (dragDropSeries a b st) = swapAdj i (series st)
        \<and> series (dragDropSeries a b (dragDropSeries a b st)) = series st
        \<and> series (dragDropSeries b a st) = swapAdj i (series st)
        \<and> series (dragDropSeries b a (dragDropSeries b a st)) = series st)
   \<and> (distinct (map key (rows st)) \<and> editingRowIndex st = None
      \<and> Suc j < length (rows st)
      \<and> k = key (rows st ! j) \<and> l = key (rows st ! Suc j) \<longrightarrow>
        rows (dragDropRow k l below st) = swapAdj j (rows st)
        \<and> rows (dragDropRow k l above (dragDropRow k l below st)) = rows st
        \<and> rows (dragDropRow l k above st) = swapAdj j (rows st)
        \<and> rows (dragDropRow l k below (dragDropRow l k above st)) = rows st)"
proof (intro conjI impI)
  assume h: "distinct (map id_s (series st)) \<and> [] \<notin> set (map id_s (series st))
      \<and> Suc i < length (series st)
      \<and> a = id_s (series st ! i) \<and> b = id_s (series st ! Suc i)"
  let ?xs = "series st"
  let ?ys = "swapAdj i ?xs"
  from h have i: "Suc i < length ?xs" "i < length ?xs" by simp_all
  from h have d: "distinct (map id_s ?xs)" by simp
  from h have ab: "a = id_s (?xs ! i)" "b = id_s (?xs ! Suc i)" by simp_all
  have ne: "a \<noteq> b"
    using d i ab by (simp add: distinct_conv_nth)
  have nonempty: "a \<noteq> []" "b \<noteq> []"
    using h i by (metis ab(1) nth_mem length_map nth_map, metis ab(2) nth_mem length_map nth_map)
  have fa: "findIndex (\<lambda>s. id_s s = a) ?xs = Some i"
    unfolding ab using findIndex_distinct [OF d i(2)] .
  have fb: "findIndex (\<lambda>s. id_s s = b) ?xs = Some (Suc i)"
    unfolding ab using findIndex_distinct [OF d i(1)] .
  have dy: "distinct (map id_s ?ys)"
    using d i by (simp add: map_swapAdj distinct_swapAdj)
  have ly: "Suc i < length ?ys" "i < length ?ys"
    using i by (simp_all add: swapAdj_simps)
  have ya: "a = id_s (?ys ! Suc i)" and yb: "b = id_s (?ys ! i)"
    using i ab by (simp_all add: swapAdj_simps)
  have ga: "findIndex (\<lambda>s. id_s s = a) ?ys = Some (Suc i)"
    unfolding ya using findIndex_distinct [OF dy ly(1)] .
  have gb: "findIndex (\<lambda>s. id_s s = b) ?ys = Some i"
    unfolding yb using findIndex_distinct [OF dy ly(2)] .
  show down: "series (dragDropSeries a b st) = ?ys"
    using ne nonempty by (simp add: series_dragDropSeries reorderSeries_idx [OF fa fb] move_down [OF i(1)])
  have "series (dragDropSeries a b (dragDropSeries a b st)) = reorderSeries a b ?ys"
    using ne nonempty by (simp add: series_dragDropSeries [of a b "dragDropSeries a b st"] down)
  also have "\<dots> = swapAdj i ?ys"
    unfolding reorderSeries_idx [OF ga gb] by (rule move_up [OF ly(1)])
  finally show "series (dragDropSeries a b (dragDropSeries a b st)) = series st"
    by (simp add: swapAdj_twice [OF i(1)])
  show up: "series (dragDropSeries b a st) = ?ys"
    using ne nonempty by (simp add: series_dragDropSeries reorderSeries_idx [OF fb fa] move_up [OF i(1)])
  have "series (dragDropSeries b a (dragDropSeries b a st)) = reorderSeries b a ?ys"
    using ne nonempty by (simp add: series_dragDropSeries [of b a "dragDropSeries b a st"] up)
  also have "\<dots> = swapAdj i ?ys"
    unfolding reorderSeries_idx [OF gb ga] by (rule move_down [OF ly(1)])
  finally show "series (dragDropSeries b a (dragDropSeries b a st)) = series st"
    by (simp add: swapAdj_twice [OF i(1)])
next
  assume h: "distinct (map key (rows st)) \<and> editingRowIndex st = None
      \<and> Suc j < length (rows st)
      \<and> k = key (rows st ! j) \<and> l = key (rows st ! Suc j)"
  let ?xs = "rows st"
  let ?ys = "swapAdj j ?xs"
  from h have i: "Suc j < length ?xs" "j < length ?xs" by simp_all
  from h have d: "distinct (map key ?xs)" by simp
  from h have ed: "editingRowIndex st = None" by simp
  from h have ab: "k = key (?xs ! j)" "l = key (?xs ! Suc j)" by simp_all
  have fa: "findIndex (\<lambda>r. key r = k) ?xs = Some j"
    unfolding ab using findIndex_distinct [OF d i(2)] .
  have fb: "findIndex (\<lambda>r. key r = l) ?xs = Some (Suc j)"
    unfolding ab using findIndex_distinct [OF d i(1)] .
  have dy: "distinct (map key ?ys)"
    using d i by (simp add: map_swapAdj distinct_swapAdj)
  have ly: "Suc j < length ?ys" "j < length ?ys"
    using i by (simp_all add: swapAdj_simps)
  have ya: "k = key (?ys ! Suc j)" and yb: "l = key (?ys ! j)"
    using i ab by (simp_all add: swapAdj_simps)
  have ga: "findIndex (\<lambda>r. key r = k) ?ys = Some (Suc j)"
    unfolding ya using findIndex_distinct [OF dy ly(1)] .
  have gb: "findIndex (\<lambda>r. key r = l) ?ys = Some j"
    unfolding yb using findIndex_distinct [OF dy ly(2)] .
  show down: "rows (dragDropRow k l below st) = ?ys"
    by (simp add: rows_dragDropRow [OF ed] reorderRows_idx [OF fa fb] move_down [OF i(1)])
  have ed1: "editingRowIndex (dragDropRow k l below st) = None" using ed by simp
  have "rows (dragDropRow k l above (dragDropRow k l below st)) = reorderRows k l (Some above) ?ys"
    by (simp add: rows_dragDropRow [OF ed1] down)
  also have "\<dots> = swapAdj j ?ys"
    unfolding reorderRows_idx [OF ga gb] by (simp add: move_up [OF ly(1)])
  finally show "rows (dragDropRow k l above (dragDropRow k l below st)) = rows st"
    by (simp add: swapAdj_twice [OF i(1)])
  show up: "rows (dragDropRow l k above st) = ?ys"
    by (simp add: rows_dragDropRow [OF ed] reorderRows_idx [OF fb fa] move_up [OF i(1)])
  have ed2: "editingRowIndex (dragDropRow l k above st) = None" using ed by simp
  have "rows (dragDropRow l k below (dragDropRow l k above st)) = reorderRows l k (Some below) ?ys"
    by (simp add: rows_dragDropRow [OF ed2] up)
  also have "\<dots> = swapAdj j ?ys"
    unfolding reorderRows_idx [OF gb ga] by (simp add: move_down [OF ly(1)])
  finally show "rows (dragDropRow l k below (dragDropRow l k above st)) = rows st"
    by (simp add: swapAdj_twice [OF i(1)])
qed

section \<open>Renaming columns\<close>

lemma rename_labels_distinct:
  assumes "distinct (map id_s ss)"
    and "distinct (map (\<lambda>s. f (label s)) ss)"
    and "\<forall>s \<in> set ss. id_s s \<noteq> eid \<longrightarrow> f (label s) \<noteq> f t"
  shows "distinct (map (\<lambda>s. f (label s)) (map (\<lambda>s. if id_s s = eid then s\<lparr>label := t\<rparr> else s) ss))"
  using assms
proof (induction ss)
  case Nil
  then show ?case by simp
next
  case (Cons x xs)
  then have ih: "distinct (map (\<lambda>s. f (label s)) (map (\<lambda>s. if id_s s = eid then s\<lparr>label := t\<rparr> else s) xs))"
    by simp
  show ?case
  proof (cases "id_s x = eid")
    case True
    with Cons.prems(1) have "\<forall>s \<in> set xs. id_s s \<noteq> eid" by (auto simp: image_iff)
    with Cons.prems(3) True ih show ?thesis by (auto simp: image_iff)
  next
    case False
    with Cons.prems ih show ?thesis by (auto simp: image_iff)
  qed
qed

lemma series_commitRenameSeries:
  "series (commitRenameSeries h st) =
     (case editingSeriesId st of
        None \<Rightarrow> series st
      | Some eid \<Rightarrow>
          if eid \<noteq> [] \<and> hostTrim h (editingValue st) \<noteq> []
             \<and> \<not> list_ex (\<lambda>s. id_s s \<noteq> eid
                    \<and> hostLowerCase h (label s) = hostLowerCase h (hostTrim h (editingValue st)))
                  (series st)
          then map (\<lambda>s. if id_s s = eid then s\<lparr>label := hostTrim h (editingValue st)\<rparr> else s)
                 (series st)
          else series st)"
  by (simp add: commitRenameSeries_def Let_def split: option.splits)

lemma ids_commitRenameSeries [simp]:
  "map id_s (series (commitRenameSeries h st)) = map id_s (series st)"
  by (auto simp: commitRenameSeries_def Let_def comp_def split: option.splits intro!: map_cong)

lemma labels_commitRenameSeries:
  assumes "distinct (map id_s (series st))" and "labelsDistinct h (series st)"
  shows "labelsDistinct h (series (commitRenameSeries h st))"
proof (cases "editingSeriesId st")
  case None
  with assms show ?thesis by (simp add: commitRenameSeries_def)
next
  case (Some eid)
  show ?thesis
  proof (cases "eid = [] \<or> hostTrim h (editingValue st) = []
      \<or> list_ex (\<lambda>s. id_s s \<noteq> eid
            \<and> hostLowerCase h (label s) = hostLowerCase h (hostTrim h (editingValue st)))
          (series st)")
    case True
    with assms Some show ?thesis by (auto simp: commitRenameSeries_def Let_def)
  next
    case False
    then have "\<forall>s \<in> set (series st). id_s s \<noteq> eid \<longrightarrow>
        hostLowerCase h (label s) \<noteq> hostLowerCase h (hostTrim h (editingValue st))"
      by (auto simp: list_ex_iff)
    from rename_labels_distinct [OF assms(1) assms(2) [unfolded labelsDistinct_def] this]
    show ?thesis using False Some by (simp add: commitRenameSeries_def Let_def labelsDistinct_def)
  qed
qed

text \<open>The effects that follow an accepted commit leave the registry and the editing cells.\<close>

lemma commit_step_fields:
  "series (renameStep h CommitRename st) = series (commitRenameSeries h st)"
  "editingSeriesId (renameStep h CommitRename st) = editingSeriesId (commitRenameSeries h st)"
  "editingValue (renameStep h CommitRename st) = editingValue (commitRenameSeries h st)"
  by simp_all

lemma series_renameStep_other:
  "series (startRenameSeries i st) = series st"
  "series (setEditingValue v st) = series st"
  "series (cancelRename st) = series st"
  by (simp_all add: startRenameSeries_def setEditingValue_def cancelRename_def split: option.splits)

lemma renameStep_invariant:
  assumes "distinct (map id_s (series st))" and "labelsDistinct h (series st)"
  shows "distinct (map id_s (series (renameStep h ev st)))
      \<and> labelsDistinct h (series (renameStep h ev st))"
  using assms
  by (cases ev) (simp_all add: series_renameStep_other labels_commitRenameSeries)

lemma renameRun_invariant:
  "distinct (map id_s (series st)) \<Longrightarrow> labelsDistinct h (series st) \<Longrightarrow>
   distinct (map id_s (series (renameRun h evs st)))
   \<and> labelsDistinct h (series (renameRun h evs st))"
proof (induction evs arbitrary: st)
  case Nil
  then show ?case by (simp add: renameRun_def)
next
  case (Cons ev evs)
  from renameStep_invariant [OF Cons.prems, of ev]
  have "distinct (map id_s (series (renameStep h ev st)))
      \<and> labelsDistinct h (series (renameStep h ev st))" .
  with Cons.IH [of "renameStep h ev st"] show ?case
    by (simp add: renameRun_def)
qed

text \<open>On ASCII text the trimmed string has no white space at either end.\<close>

lemma trim_edges:
  "trim s = [] \<or> (\<not> isWhiteSpace (hd (trim s)) \<and> \<not> isWhiteSpace (last (trim s)))"
proof (cases "trim s = []")
  case True
  then show ?thesis by simp
next
  case False
  let ?zs = "dropWhile isWhiteSpace s"
  let ?ws = "dropWhile isWhiteSpace (rev ?zs)"
  from False have ws: "?ws \<noteq> []" by (simp add: trim_def)
  then have zs: "?zs \<noteq> []" by (cases "?zs") simp_all
  have l: "\<not> isWhiteSpace (last (trim s))"
    using ws hd_dropWhile [of isWhiteSpace "rev ?zs"] by (simp add: trim_def last_rev)
  have "\<exists>p. rev ?zs = p @ ?ws"
    by (metis takeWhile_dropWhile_id)
  then obtain p where "rev ?zs = p @ ?ws" ..
  then have "?zs = rev ?ws @ rev p" by (metis rev_append rev_rev_ident)
  with ws have "hd (rev ?ws) = hd ?zs" by (metis hd_append2 rev_is_Nil_conv)
  with zs have "\<not> isWhiteSpace (hd (trim s))"
    using hd_dropWhile [of isWhiteSpace s] by (simp add: trim_def)
  with l show ?thesis by simp
qed

text \<open>
  Claim C5. Whatever the host's \<open>trim\<close> and \<open>toLowerCase\<close> do: committing a rename
  writes the trimmed text as the label of the column being renamed when the text is not
  empty and no other column's label has the lower-case form of it, and leaves the
  registry as it was otherwise. In a registry of distinct ids whose labels have distinct
  lower-case forms, the labels keep distinct lower-case forms along every sequence of
  rename events.
\<close>

theorem rename_keeps_labels_distinct:
  "(editingSeriesId st = Some eid \<and> eid \<noteq> [] \<longrightarrow>
      series (commitRenameSeries h st) =
        (if hostTrim h (editingValue st) \<noteq> []
            \<and> \<not> list_ex (\<lambda>s. id_s s \<noteq> eid
                   \<and> hostLowerCase h (label s) = hostLowerCase h (hostTrim h (editingValue st)))
                 (series st)
         then map (\<lambda>s. if id_s s = eid then s\<lparr>label := hostTrim h (editingValue st)\<rparr> else s)
                (series st)
         else series st))
   \<and> (distinct (map id_s (series st)) \<and> labelsDistinct h (series st) \<longrightarrow>
        labelsDistinct h (series (renameRun h evs st)))"
proof (intro conjI impI)
  assume "editingSeriesId st = Some eid \<and> eid \<noteq> []"
  then show "series (commitRenameSeries h st) =
        (if hostTrim h (editingValue st) \<noteq> []
            \<and> \<not> list_ex (\<lambda>s. id_s s \<noteq> eid
                   \<and> hostLowerCase h (label s) = hostLowerCase h (hostTrim h (editingValue st)))
                 (series st)
         then map (\<lambda>s. if id_s s = eid then s\<lparr>label := hostTrim h (editingValue st)\<rparr> else s)
                (series st)
         else series st)"
    by (simp add: series_commitRenameSeries)
next
  assume "distinct (map id_s (series st)) \<and> labelsDistinct h (series st)"
  then show "labelsDistinct h (series (renameRun h evs st))"
    using renameRun_invariant [of st h evs] by simp
qed

lemma editing_startRenameSeries:
  "editingSeriesId (startRenameSeries i st) =
     (case find (\<lambda>s. id_s s = i) (series st) of None \<Rightarrow> editingSeriesId st | Some t \<Rightarrow> Some i)"
  "editingValue (startRenameSeries i st) =
     (case find (\<lambda>s. id_s s = i) (series st) of None \<Rightarrow> editingValue st | Some t \<Rightarrow> label t)"
  by (simp_all add: startRenameSeries_def split: option.splits)

lemma editing_setEditingValue:
  "editingSeriesId (setEditingValue v st) = editingSeriesId st"
  "editingValue (setEditingValue v st) = v"
  by (simp_all add: setEditingValue_def)

lemma editing_commitRenameSeries:
  "editingSeriesId (commitRenameSeries h st) =
     (case editingSeriesId st of None \<Rightarrow> None | Some eid \<Rightarrow> if eid = [] then Some eid else None)"
  "editingValue (commitRenameSeries h st) = editingValue st"
  by (simp_all add: commitRenameSeries_def Let_def split: option.splits)

lemma initialApp_fields:
  "series initialApp = initialSeries"
  "rows initialApp = initialRows"
  "editingSeriesId initialApp = None"
  "editingRowIndex initialApp = None"
  "labelColumn initialApp = ''key''"
  "sweepSeriesSet initialApp = {}"
  "sweepRowSet initialApp = {}"
  by (simp_all add: initialApp_def)

theorem rename_keeps_labels_distinct_witness:
  "labelsDistinct asciiHost (series (renameRun asciiHost
        [StartRename ''COGS'', TypeLabel ''  revenue  '', CommitRename,
         StartRename ''COGS'', TypeLabel '' Costs '', CommitRename] initialApp))
   \<and> map label (series (renameRun asciiHost
        [StartRename ''COGS'', TypeLabel ''  revenue  '', CommitRename] initialApp)) =
       [''Revenue'', ''COGS'', ''Operating Expenses'', ''R&D'', ''Net Profit'']
   \<and> map label (series (renameRun asciiHost
        [StartRename ''COGS'', TypeLabel ''  revenue  '', CommitRename,
         StartRename ''COGS'', TypeLabel '' Costs '', CommitRename] initialApp)) =
       [''Revenue'', ''Costs'', ''Operating Expenses'', ''R&D'', ''Net Profit'']
   \<and> map label (series (commitRenameSeries asciiHost (renameRun asciiHost
        [StartRename ''COGS'', TypeLabel '' Costs ''] initialApp))) =
       [''Revenue'', ''Costs'', ''Operating Expenses'', ''R&D'', ''Net Profit'']"
proof -
  let ?s = "renameRun asciiHost [StartRename ''COGS'', TypeLabel '' Costs ''] initialApp"
  have e: "editingSeriesId ?s = Some ''COGS'' \<and> ''COGS'' \<noteq> []"
    by (simp add: renameRun_def editing_setEditingValue editing_startRenameSeries
        initialApp_fields initialSeries_def mkSeries_def)
  have v: "editingValue ?s = '' Costs ''" "series ?s = initialSeries"
    by (simp_all add: renameRun_def editing_setEditingValue series_renameStep_other
        initialApp_fields)
  from rename_keeps_labels_distinct [of ?s "''COGS''" asciiHost] e
  have "series (commitRenameSeries asciiHost ?s) =
        (if hostTrim asciiHost (editingValue ?s) \<noteq> []
            \<and> \<not> list_ex (\<lambda>s. id_s s \<noteq> ''COGS''
                   \<and> hostLowerCase asciiHost (label s) =
                       hostLowerCase asciiHost (hostTrim asciiHost (editingValue ?s)))
                 (series ?s)
         then map (\<lambda>s. if id_s s = ''COGS'' then s\<lparr>label := hostTrim asciiHost (editingValue ?s)\<rparr>
                         else s) (series ?s)
         else series ?s)"
    by blast
  then have d: "map label (series (commitRenameSeries asciiHost ?s)) =
       [''Revenue'', ''Costs'', ''Operating Expenses'', ''R&D'', ''Net Profit'']"
    unfolding v
    by (simp add: initialSeries_def mkSeries_def asciiHost_def trim_def isWhiteSpace_def
        asciiLowerCase_def lowerChar_def)
  have h: "distinct (map id_s (series initialApp)) \<and> labelsDistinct asciiHost (series initialApp)"
    by (simp add: initialApp_fields initialSeries_def mkSeries_def labelsDistinct_def
        asciiHost_def asciiLowerCase_def lowerChar_def)
  have a: "labelsDistinct asciiHost (series (renameRun asciiHost
        [StartRename ''COGS'', TypeLabel ''  revenue  '', CommitRename,
         StartRename ''COGS'', TypeLabel '' Costs '', CommitRename] initialApp))"
    using rename_keeps_labels_distinct [of initialApp _ asciiHost "[StartRename ''COGS'',
        TypeLabel ''  revenue  '', CommitRename, StartRename ''COGS'', TypeLabel '' Costs '',
        CommitRename]"] h by blast
  have b: "series (renameRun asciiHost
        [StartRename ''COGS'', TypeLabel ''  revenue  '', CommitRename] initialApp) = initialSeries"
    by (simp add: renameRun_def commit_step_fields series_commitRenameSeries
        editing_setEditingValue editing_startRenameSeries series_renameStep_other
        initialApp_fields initialSeries_def mkSeries_def asciiHost_def trim_def isWhiteSpace_def
        asciiLowerCase_def lowerChar_def del: renameStep.simps(3))
  have c: "map label (series (renameRun asciiHost
        [StartRename ''COGS'', TypeLabel ''  revenue  '', CommitRename,
         StartRename ''COGS'', TypeLabel '' Costs '', CommitRename] initialApp)) =
       [''Revenue'', ''Costs'', ''Operating Expenses'', ''R&D'', ''Net Profit'']"
    by (simp add: renameRun_def commit_step_fields series_commitRenameSeries
        editing_setEditingValue editing_startRenameSeries editing_commitRenameSeries
        series_renameStep_other initialApp_fields initialSeries_def mkSeries_def asciiHost_def
        trim_def isWhiteSpace_def asciiLowerCase_def lowerChar_def del: renameStep.simps(3))
  from a b c d show ?thesis by (simp add: initialSeries_def mkSeries_def)
qed

section \<open>The sweep gesture\<close>

lemma enteredIds_simps [simp]:
  "enteredIds [] = {}"
  "enteredIds (EnterSeries s # evs) = insert (id_s s) (enteredIds evs)"
  "enteredIds (EnterRow ri # evs) = enteredIds evs"
  by (simp_all add: enteredIds_def)

lemma enteredRows_simps [simp]:
  "enteredRows [] = {}"
  "enteredRows (EnterSeries s # evs) = enteredRows evs"
  "enteredRows (EnterRow ri # evs) = insert ri (enteredRows evs)"
  by (simp_all add: enteredRows_def)

lemma enterRun_simps [simp]:
  "enterRun [] st = st"
  "enterRun (ev # evs) st = enterRun evs (enterStep ev st)"
  by (simp_all add: enterRun_def)

lemma id_flipVisible [simp]: "id_s (flipVisible s) = id_s s"
  by (simp add: flipVisible_def)

lemma key_flipHidden [simp]: "key (flipHidden r) = key r"
  by (simp add: flipHidden_def)

lemma series_toggle: "series (toggleSeriesVisible i st) = map (\<lambda>c. if id_s c = i then flipVisible c else c) (series st)"
  by (simp add: toggleSeriesVisible_def flipVisible_def)

lemma toggle_keeps [simp]:
  "rows (toggleSeriesVisible i st) = rows st"
  "sweepActive (toggleSeriesVisible i st) = sweepActive st"
  "sweepSeriesSet (toggleSeriesVisible i st) = sweepSeriesSet st"
  "sweepRowSet (toggleSeriesVisible i st) = sweepRowSet st"
  by (simp_all add: toggleSeriesVisible_def)

lemma hideRow_keeps [simp]:
  "series (hideRow i st) = series st"
  "sweepActive (hideRow i st) = sweepActive st"
  "sweepSeriesSet (hideRow i st) = sweepSeriesSet st"
  "sweepRowSet (hideRow i st) = sweepRowSet st"
  "rows (hideRow i st) = (rows st)[i := flipHidden (rows st ! i)]"
  by (simp_all add: hideRow_def flipHidden_def)

lemma flip_compose:
  "(if id_s (if id_s c = i \<and> i \<notin> T then flipVisible c else c) \<in> E - insert i T
    then flipVisible (if id_s c = i \<and> i \<notin> T then flipVisible c else c)
    else (if id_s c = i \<and> i \<notin> T then flipVisible c else c)) =
   (if id_s c \<in> insert i E - T then flipVisible c else c)"
  by (cases "id_s c = i"; cases "i \<in> T"; simp)

lemma enterRun_series:
  "sweepActive st = Some series_k \<Longrightarrow>
   series (enterRun evs st) =
     map (\<lambda>c. if id_s c \<in> enteredIds evs - sweepSeriesSet st then flipVisible c else c) (series st)
   \<and> sweepSeriesSet (enterRun evs st) = sweepSeriesSet st \<union> enteredIds evs
   \<and> sweepActive (enterRun evs st) = Some series_k
   \<and> rows (enterRun evs st) = rows st"
proof (induction evs arbitrary: st)
  case Nil
  then show ?case by simp
next
  case (Cons ev evs)
  define st' where "st' = enterStep ev st"
  have run: "enterRun (ev # evs) st = enterRun evs st'"
    by (simp add: st'_def)
  show ?case
  proof (cases ev)
    case (EnterSeries s)
    have act: "sweepActive st' = Some series_k"
      using Cons.prems EnterSeries by (simp add: st'_def handleSeriesHeaderMouseEnter_def)
    have set': "sweepSeriesSet st' = insert (id_s s) (sweepSeriesSet st)"
      using Cons.prems EnterSeries
      by (simp add: st'_def handleSeriesHeaderMouseEnter_def insert_absorb)
    have ser': "series st' =
        map (\<lambda>c. if id_s c = id_s s \<and> id_s s \<notin> sweepSeriesSet st then flipVisible c else c) (series st)"
      using Cons.prems EnterSeries
      by (simp add: st'_def handleSeriesHeaderMouseEnter_def series_toggle)
    have rows': "rows st' = rows st"
      using Cons.prems EnterSeries by (simp add: st'_def handleSeriesHeaderMouseEnter_def)
    note ih = Cons.IH [OF act, unfolded set' ser' rows']
    have a: "series (enterRun (ev # evs) st) =
        map (\<lambda>c. if id_s c \<in> enteredIds (ev # evs) - sweepSeriesSet st then flipVisible c else c)
          (series st)"
      unfolding run unfolding EnterSeries enteredIds_simps
      using ih by (simp only: map_map comp_def flip_compose)
    have b: "sweepSeriesSet (enterRun (ev # evs) st) = sweepSeriesSet st \<union> enteredIds (ev # evs)"
      unfolding run unfolding EnterSeries enteredIds_simps using ih by (simp only: Un_insert_left Un_insert_right)
    have c: "sweepActive (enterRun (ev # evs) st) = Some series_k" "rows (enterRun (ev # evs) st) = rows st"
      unfolding run using ih by (simp_all only:)
    from a b c show ?thesis by (simp only: simp_thms)
  next
    case (EnterRow ri)
    have same: "enterStep ev st = st"
      using Cons.prems EnterRow by (simp add: handleRowHeaderMouseEnter_def)
    have act: "sweepActive st' = Some series_k" using Cons.prems by (simp add: st'_def same)
    have keep: "sweepSeriesSet st' = sweepSeriesSet st" "series st' = series st" "rows st' = rows st"
      by (simp_all add: st'_def same)
    from Cons.IH [OF act] show ?thesis
      unfolding run keep unfolding EnterRow enteredIds_simps by (simp only: simp_thms)
  qed
qed

lemma update_as_map:
  assumes "distinct (map f xs)" and "i < length xs"
  shows "xs[i := g (xs ! i)] = map (\<lambda>x. if f x = f (xs ! i) then g x else x) xs"
proof (rule nth_equalityI)
  show "length (xs[i := g (xs ! i)]) = length (map (\<lambda>x. if f x = f (xs ! i) then g x else x) xs)"
    by simp
next
  fix j
  assume "j < length (xs[i := g (xs ! i)])"
  then have j: "j < length xs" by simp
  have "f (xs ! j) = f (xs ! i) \<longleftrightarrow> j = i"
    using assms j nth_eq_iff_index_eq [of "map f xs" j i] by simp
  with j assms(2) show "xs[i := g (xs ! i)] ! j = map (\<lambda>x. if f x = f (xs ! i) then g x else x) xs ! j"
    by (cases "j = i") simp_all
qed

lemma flip_compose_rows:
  "(if key (if key c = i \<and> i \<notin> T then flipHidden c else c) \<in> E - insert i T
    then flipHidden (if key c = i \<and> i \<notin> T then flipHidden c else c)
    else (if key c = i \<and> i \<notin> T then flipHidden c else c)) =
   (if key c \<in> insert i E - T then flipHidden c else c)"
  by (cases "key c = i"; cases "i \<in> T"; simp)

lemma map_key_flip:
  "map key (map (\<lambda>c. if P c then flipHidden c else c) xs) = map key xs"
  by (induction xs) simp_all

lemma enterRun_rows:
  "sweepActive st = Some row_k \<Longrightarrow> map key (rows st) = ks \<Longrightarrow> distinct ks \<Longrightarrow>
   \<forall>ri \<in> enteredRows evs. ri < length ks \<Longrightarrow>
   rows (enterRun evs st) =
     map (\<lambda>r. if key r \<in> (\<lambda>i. ks ! i) ` enteredRows evs - sweepRowSet st then flipHidden r else r)
       (rows st)
   \<and> sweepRowSet (enterRun evs st) = sweepRowSet st \<union> (\<lambda>i. ks ! i) ` enteredRows evs
   \<and> sweepActive (enterRun evs st) = Some row_k
   \<and> series (enterRun evs st) = series st"
proof (induction evs arbitrary: st)
  case Nil
  then show ?case by simp
next
  case (Cons ev evs)
  define st' where "st' = enterStep ev st"
  have run: "enterRun (ev # evs) st = enterRun evs st'"
    by (simp add: st'_def)
  show ?case
  proof (cases ev)
    case (EnterRow ri)
    from Cons.prems(4) EnterRow have ri: "ri < length ks" and rest: "\<forall>ri \<in> enteredRows evs. ri < length ks"
      by simp_all
    from ri Cons.prems(2) have ril: "ri < length (rows st)" by auto
    from Cons.prems(2) ril have k: "key (rows st ! ri) = ks ! ri" by auto
    have d: "distinct (map key (rows st))" using Cons.prems(2,3) by simp
    have act: "sweepActive st' = Some row_k"
      using Cons.prems(1) EnterRow by (simp add: st'_def handleRowHeaderMouseEnter_def)
    have set': "sweepRowSet st' = insert (ks ! ri) (sweepRowSet st)"
      using Cons.prems(1) EnterRow k
      by (simp add: st'_def handleRowHeaderMouseEnter_def insert_absorb)
    have rows': "rows st' =
        map (\<lambda>c. if key c = ks ! ri \<and> ks ! ri \<notin> sweepRowSet st then flipHidden c else c) (rows st)"
    proof (cases "ks ! ri \<in> sweepRowSet st")
      case True
      with Cons.prems(1) EnterRow k show ?thesis
        by (simp add: st'_def handleRowHeaderMouseEnter_def)
    next
      case False
      with Cons.prems(1) EnterRow k have "rows st' = (rows st)[ri := flipHidden (rows st ! ri)]"
        by (simp add: st'_def handleRowHeaderMouseEnter_def)
      also have "\<dots> = map (\<lambda>c. if key c = key (rows st ! ri) then flipHidden c else c) (rows st)"
        by (rule update_as_map [OF d ril])
      finally show ?thesis using False k by simp
    qed
    have ser': "series st' = series st"
      using Cons.prems(1) EnterRow by (simp add: st'_def handleRowHeaderMouseEnter_def)
    have keys': "map key (rows st') = ks"
      unfolding rows' map_key_flip by (rule Cons.prems(2))
    note ih = Cons.IH [OF act keys' Cons.prems(3) rest, unfolded set' rows' ser']
    have a: "rows (enterRun (ev # evs) st) =
        map (\<lambda>r. if key r \<in> (\<lambda>i. ks ! i) ` enteredRows (ev # evs) - sweepRowSet st
                 then flipHidden r else r) (rows st)"
      unfolding run unfolding EnterRow enteredRows_simps image_insert
      using ih by (simp only: map_map comp_def flip_compose_rows)
    have b: "sweepRowSet (enterRun (ev # evs) st) =
        sweepRowSet st \<union> (\<lambda>i. ks ! i) ` enteredRows (ev # evs)"
      unfolding run unfolding EnterRow enteredRows_simps image_insert
      using ih by (simp only: Un_insert_left Un_insert_right)
    have c: "sweepActive (enterRun (ev # evs) st) = Some row_k"
      "series (enterRun (ev # evs) st) = series st"
      unfolding run using ih by (simp_all only:)
    from a b c show ?thesis by (simp only: simp_thms)
  next
    case (EnterSeries s)
    have same: "enterStep ev st = st"
      using Cons.prems(1) EnterSeries by (simp add: handleSeriesHeaderMouseEnter_def)
    have act: "sweepActive st' = Some row_k" using Cons.prems(1) by (simp add: st'_def same)
    have keep: "sweepRowSet st' = sweepRowSet st" "series st' = series st" "rows st' = rows st"
      by (simp_all add: st'_def same)
    have keys': "map key (rows st') = ks" using Cons.prems(2) by (simp add: keep)
    have rest: "\<forall>ri \<in> enteredRows evs. ri < length ks"
      using Cons.prems(4) EnterSeries by simp
    from Cons.IH [OF act keys' Cons.prems(3) rest] show ?thesis
      unfolding run keep unfolding EnterSeries enteredRows_simps by (simp only: simp_thms)
  qed
qed

lemma endSweep_fields [simp]:
  "series (endSweep st) = series st"
  "rows (endSweep st) = rows st"
  "sweepActive (endSweep st) = None"
  "sweepSeriesSet (endSweep st) = {}"
  "sweepRowSet (endSweep st) = {}"
  by (simp_all add: endSweep_def)

lemma seriesSweep_series:
  assumes "primaryPress e" and "editingSeriesId st \<noteq> Some (id_s s)" and "sweepSeriesSet st = {}"
  shows "series (seriesSweep s e evs st) =
           map (\<lambda>c. if id_s c \<in> insert (id_s s) (enteredIds evs) then flipVisible c else c) (series st)"
    and "rows (seriesSweep s e evs st) = rows st"
proof -
  define st1 where "st1 = pressSeries s e st"
  have act: "sweepActive st1 = Some series_k"
    using assms by (simp add: st1_def pressSeries_def handleSeriesHeaderMouseDown_def primaryPress_def)
  have set1: "sweepSeriesSet st1 = insert (id_s s) {}"
    using assms by (simp add: st1_def pressSeries_def handleSeriesHeaderMouseDown_def primaryPress_def)
  have ser1: "series st1 =
      map (\<lambda>c. if id_s c = id_s s \<and> id_s s \<notin> {} then flipVisible c else c) (series st)"
    using assms by (simp add: st1_def pressSeries_def handleSeriesHeaderMouseDown_def primaryPress_def series_toggle)
  have rows1: "rows st1 = rows st"
    using assms by (simp add: st1_def pressSeries_def handleSeriesHeaderMouseDown_def primaryPress_def)
  note run = enterRun_series [OF act, of evs, unfolded set1 ser1 rows1]
  have "series (seriesSweep s e evs st) = series (enterRun evs st1)"
    by (simp add: seriesSweep_def st1_def)
  also have "\<dots> = map (\<lambda>c. if id_s c \<in> insert (id_s s) (enteredIds evs) - {} then flipVisible c else c)
      (series st)"
    using run by (simp only: map_map comp_def flip_compose)
  finally show "series (seriesSweep s e evs st) =
      map (\<lambda>c. if id_s c \<in> insert (id_s s) (enteredIds evs) then flipVisible c else c) (series st)"
    by simp
  have "rows (seriesSweep s e evs st) = rows (enterRun evs st1)"
    by (simp add: seriesSweep_def st1_def)
  with run show "rows (seriesSweep s e evs st) = rows st" by simp
qed

lemma rowSweep_rows:
  assumes "primaryPress e" and "editingRowIndex st \<noteq> Some ri" and "sweepRowSet st = {}"
    and d: "distinct (map key (rows st))" and ri: "ri < length (rows st)"
    and inr: "\<forall>j \<in> enteredRows evs. j < length (rows st)"
  shows "rows (rowSweep ri e evs st) =
           map (\<lambda>r. if key r \<in> (\<lambda>i. key (rows st ! i)) ` insert ri (enteredRows evs)
                    then flipHidden r else r) (rows st)"
    and "series (rowSweep ri e evs st) = series st"
proof -
  define ks where "ks = map key (rows st)"
  define st1 where "st1 = handleRowHeaderMouseDown ri (key (rows st ! ri)) e st"
  have k: "key (rows st ! ri) = ks ! ri" using ri by (simp add: ks_def)
  have act: "sweepActive st1 = Some row_k"
    using assms(1,2) by (simp add: st1_def handleRowHeaderMouseDown_def primaryPress_def)
  have set1: "sweepRowSet st1 = insert (ks ! ri) {}"
    using assms(1,2,3) k by (simp add: st1_def handleRowHeaderMouseDown_def primaryPress_def)
  have "rows st1 = (rows st)[ri := flipHidden (rows st ! ri)]"
    using assms(1,2) by (simp add: st1_def handleRowHeaderMouseDown_def primaryPress_def)
  also have "\<dots> = map (\<lambda>c. if key c = key (rows st ! ri) then flipHidden c else c) (rows st)"
    by (rule update_as_map [OF d ri])
  finally have rows1: "rows st1 =
      map (\<lambda>c. if key c = ks ! ri \<and> ks ! ri \<notin> {} then flipHidden c else c) (rows st)"
    using k by simp
  have ser1: "series st1 = series st"
    using assms(1,2) by (simp add: st1_def handleRowHeaderMouseDown_def primaryPress_def)
  have keys1: "map key (rows st1) = ks"
    unfolding rows1 map_key_flip by (simp add: ks_def)
  have dk: "distinct ks" using d by (simp add: ks_def)
  have inr': "\<forall>j \<in> enteredRows evs. j < length ks" using inr by (simp add: ks_def)
  note run = enterRun_rows [OF act keys1 dk inr', unfolded set1 rows1 ser1]
  have img: "(\<lambda>i. key (rows st ! i)) ` insert ri (enteredRows evs) =
      insert (ks ! ri) ((\<lambda>i. ks ! i) ` enteredRows evs)"
    using ri inr by (auto simp: ks_def)
  have "rows (rowSweep ri e evs st) = rows (enterRun evs st1)"
    by (simp add: rowSweep_def st1_def)
  also have "\<dots> = map (\<lambda>c. if key c \<in> insert (ks ! ri) ((\<lambda>i. ks ! i) ` enteredRows evs) - {}
      then flipHidden c else c) (rows st)"
    using run by (simp only: map_map comp_def flip_compose_rows)
  finally show "rows (rowSweep ri e evs st) =
           map (\<lambda>r. if key r \<in> (\<lambda>i. key (rows st ! i)) ` insert ri (enteredRows evs)
                    then flipHidden r else r) (rows st)"
    unfolding img by simp
  have "series (rowSweep ri e evs st) = series (enterRun evs st1)"
    by (simp add: rowSweep_def st1_def)
  with run show "series (rowSweep ri e evs st) = series st" by simp
qed

lemma key_in_image_iff:
  assumes "distinct (map key xs)" and "j < length xs" and "\<forall>i \<in> I. i < length xs"
  shows "key (xs ! j) \<in> (\<lambda>i. key (xs ! i)) ` I \<longleftrightarrow> j \<in> I"
proof
  assume "key (xs ! j) \<in> (\<lambda>i. key (xs ! i)) ` I"
  then obtain i where i: "i \<in> I" "key (xs ! j) = key (xs ! i)" by auto
  with assms have e: "map key xs ! j = map key xs ! i" and il: "i < length (map key xs)"
    and jl: "j < length (map key xs)" by auto
  from nth_eq_iff_index_eq [OF assms(1) jl il] e have "j = i" by blast
  with i show "j \<in> I" by simp
next
  assume "j \<in> I"
  then show "key (xs ! j) \<in> (\<lambda>i. key (xs ! i)) ` I" by auto
qed

text \<open>
  A sweep starts with a primary press on a header that is not being renamed, from a state
  whose touched set is empty, and ends with the release. Over column headers it flips the
  flag of exactly the columns whose header was pressed or entered, once each however
  often a header is entered again, and leaves the rows alone; over row headers, in a row
  store of distinct keys, it flips exactly the rows at the pressed and entered indices,
  once each, and leaves the columns alone. The press flips the pressed header and records
  it; entering a header that is not in the touched set flips it and records it; entering
  a header that is in the touched set leaves the state as it is.
\<close>

lemma sweep_toggles_once:
  "(primaryPress e \<and> editingSeriesId st \<noteq> Some (id_s s) \<and> sweepSeriesSet st = {} \<longrightarrow>
      series (seriesSweep s e evs st) =
        map (\<lambda>c. if id_s c \<in> insert (id_s s) (enteredIds evs) then flipVisible c else c) (series st)
      \<and> rows (seriesSweep s e evs st) = rows st
      \<and> sweepActive (seriesSweep s e evs st) = None
      \<and> sweepSeriesSet (seriesSweep s e evs st) = {})
   \<and> (primaryPress e \<and> editingRowIndex st \<noteq> Some ri \<and> sweepRowSet st = {}
        \<and> distinct (map key (rows st)) \<and> ri < length (rows st)
        \<and> (\<forall>j \<in> enteredRows evs. j < length (rows st)) \<longrightarrow>
      length (rows (rowSweep ri e evs st)) = length (rows st)
      \<and> (\<forall>j < length (rows st). rows (rowSweep ri e evs st) ! j =
            (if j \<in> insert ri (enteredRows evs) then flipHidden (rows st ! j) else rows st ! j))
      \<and> series (rowSweep ri e evs st) = series st
      \<and> sweepActive (rowSweep ri e evs st) = None
      \<and> sweepRowSet (rowSweep ri e evs st) = {})
   \<and> (primaryPress e \<and> editingSeriesId st \<noteq> Some (id_s s) \<longrightarrow>
        series (handleSeriesHeaderMouseDown s e st) =
          map (\<lambda>c. if id_s c = id_s s then flipVisible c else c) (series st)
        \<and> sweepActive (handleSeriesHeaderMouseDown s e st) = Some series_k
        \<and> sweepSeriesSet (handleSeriesHeaderMouseDown s e st) = insert (id_s s) (sweepSeriesSet st))
   \<and> (sweepActive st = Some series_k \<and> id_s s \<notin> sweepSeriesSet st \<longrightarrow>
        series (handleSeriesHeaderMouseEnter s st) =
          map (\<lambda>c. if id_s c = id_s s then flipVisible c else c) (series st)
        \<and> sweepSeriesSet (handleSeriesHeaderMouseEnter s st) = insert (id_s s) (sweepSeriesSet st))
   \<and> (id_s s \<in> sweepSeriesSet st \<longrightarrow> handleSeriesHeaderMouseEnter s st = st)
   \<and> (k \<in> sweepRowSet st \<longrightarrow> handleRowHeaderMouseEnter ri k st = st)"
proof (intro conjI impI)
  assume h: "primaryPress e \<and> editingSeriesId st \<noteq> Some (id_s s) \<and> sweepSeriesSet st = {}"
  then have p: "primaryPress e" "editingSeriesId st \<noteq> Some (id_s s)" "sweepSeriesSet st = {}"
    by simp_all
  show "series (seriesSweep s e evs st) =
        map (\<lambda>c. if id_s c \<in> insert (id_s s) (enteredIds evs) then flipVisible c else c) (series st)"
    by (rule seriesSweep_series(1) [OF p])
  show "rows (seriesSweep s e evs st) = rows st"
    by (rule seriesSweep_series(2) [OF p])
  show "sweepActive (seriesSweep s e evs st) = None"
    by (simp add: seriesSweep_def)
  show "sweepSeriesSet (seriesSweep s e evs st) = {}"
    by (simp add: seriesSweep_def)
next
  assume h: "primaryPress e \<and> editingRowIndex st \<noteq> Some ri \<and> sweepRowSet st = {}
        \<and> distinct (map key (rows st)) \<and> ri < length (rows st)
        \<and> (\<forall>j \<in> enteredRows evs. j < length (rows st))"
  then have p: "primaryPress e" "editingRowIndex st \<noteq> Some ri" "sweepRowSet st = {}"
    "distinct (map key (rows st))" "ri < length (rows st)"
    "\<forall>j \<in> enteredRows evs. j < length (rows st)"
    by simp_all
  have all: "\<forall>j \<in> insert ri (enteredRows evs). j < length (rows st)"
    using p(5,6) by simp
  note r = rowSweep_rows(1) [OF p]
  show "length (rows (rowSweep ri e evs st)) = length (rows st)"
    unfolding r by simp
  show "\<forall>j < length (rows st). rows (rowSweep ri e evs st) ! j =
            (if j \<in> insert ri (enteredRows evs) then flipHidden (rows st ! j) else rows st ! j)"
  proof (intro allI impI)
    fix j
    assume j: "j < length (rows st)"
    show "rows (rowSweep ri e evs st) ! j =
            (if j \<in> insert ri (enteredRows evs) then flipHidden (rows st ! j) else rows st ! j)"
      unfolding r using j key_in_image_iff [OF p(4) j all] by simp
  qed
  show "series (rowSweep ri e evs st) = series st"
    by (rule rowSweep_rows(2) [OF p])
  show "sweepActive (rowSweep ri e evs st) = None"
    by (simp add: rowSweep_def)
  show "sweepRowSet (rowSweep ri e evs st) = {}"
    by (simp add: rowSweep_def)
next
  assume h: "primaryPress e \<and> editingSeriesId st \<noteq> Some (id_s s)"
  then show "series (handleSeriesHeaderMouseDown s e st) =
          map (\<lambda>c. if id_s c = id_s s then flipVisible c else c) (series st)"
    by (simp add: handleSeriesHeaderMouseDown_def primaryPress_def series_toggle)
  from h show "sweepActive (handleSeriesHeaderMouseDown s e st) = Some series_k"
    by (simp add: handleSeriesHeaderMouseDown_def primaryPress_def)
  from h show "sweepSeriesSet (handleSeriesHeaderMouseDown s e st) = insert (id_s s) (sweepSeriesSet st)"
    by (simp add: handleSeriesHeaderMouseDown_def primaryPress_def)
next
  assume h: "sweepActive st = Some series_k \<and> id_s s \<notin> sweepSeriesSet st"
  then show "series (handleSeriesHeaderMouseEnter s st) =
          map (\<lambda>c. if id_s c = id_s s then flipVisible c else c) (series st)"
    by (simp add: handleSeriesHeaderMouseEnter_def series_toggle)
  from h show "sweepSeriesSet (handleSeriesHeaderMouseEnter s st) = insert (id_s s) (sweepSeriesSet st)"
    by (simp add: handleSeriesHeaderMouseEnter_def)
next
  assume "id_s s \<in> sweepSeriesSet st"
  then show "handleSeriesHeaderMouseEnter s st = st"
    by (simp add: handleSeriesHeaderMouseEnter_def)
next
  assume "k \<in> sweepRowSet st"
  then show "handleRowHeaderMouseEnter ri k st = st"
    by (simp add: handleRowHeaderMouseEnter_def)
qed

section \<open>Renaming row keys\<close>

lemma floor_rat_numeral [simp]: "\<lfloor>numeral a / numeral b :: rat\<rfloor> = numeral a div numeral b"
  by (metis floor_divide_of_int_eq of_int_numeral)

lemma labelColumn_runEffects_key: "labelColumn st = ''key'' \<Longrightarrow> labelColumn (runEffects st) = ''key''"
  by (simp add: runEffects_def reconciler_def selectionEffect_def Let_def)

lemma rows_commitEditRowHeader:
  "rows (commitEditRowHeader st) =
     (case editingRowIndex st of
        None \<Rightarrow> rows st
      | Some idx \<Rightarrow>
          if trim (editingRowValue st) = [] then rows st
          else commitRows idx (labelColumn st) (trim (editingRowValue st)) (rows st))"
  by (simp add: commitEditRowHeader_def cancelEditRowHeader_def Let_def split: option.splits)

lemma commit_rejects_noop:
  assumes "labelColumn st = ''key''" and "editingRowIndex st = Some idx"
    and "trim (editingRowValue st) = [] \<or> duplicateKey idx (trim (editingRowValue st)) (rows st)"
  shows "rows (commitEditRowHeader st) = rows st"
  using assms by (auto simp: rows_commitEditRowHeader commitRows_def)

lemma rows_renameRowKey:
  assumes "ri < length (rows st)" and "labelColumn st = ''key''"
  shows "rows (renameRowKey ri txt st) =
     (if trim txt = [] then rows st else commitRows ri ''key'' (trim txt) (rows st))"
proof -
  define st1 where "st1 = runEffects (startEditRowHeader ri st)"
  define st2 where "st2 = runEffects (setEditingRowValue txt st1)"
  have s1: "rows st1 = rows st" "labelColumn st1 = ''key''" "editingRowIndex st1 = Some ri"
    using assms by (simp_all add: st1_def startEditRowHeader_def labelColumn_runEffects_key)
  have s2: "rows st2 = rows st" "labelColumn st2 = ''key''" "editingRowIndex st2 = Some ri"
      "editingRowValue st2 = txt"
    using s1 by (simp_all add: st2_def setEditingRowValue_def labelColumn_runEffects_key)
  have "rows (renameRowKey ri txt st) = rows (commitEditRowHeader st2)"
    by (simp add: renameRowKey_def st2_def st1_def)
  then show ?thesis by (simp add: rows_commitEditRowHeader s2)
qed

lemma twoRows_fields:
  "rows twoRows = [mkRow 2019 120 48 30 12 30, mkRow 2020 135 53 33 14 35]"
  "labelColumn twoRows = ''key''"
  by (simp_all add: twoRows_def initialApp_def)

lemma string_2019: "numToString 2019 = ''2019''" "numToString 2020 = ''2020''"
  by (simp_all add: numToString_def posToString_def natToString.simps digitChar_def)

lemma existing_key_rejected:
  "renderedKeys (renameRowKey 1 ''2019'' twoRows) = [''2019'', ''2020'']
   \<and> rows (renameRowKey 1 ''2019'' twoRows) = rows twoRows"
  by (simp add: renderedKeys_def rows_renameRowKey twoRows_fields commitRows_def duplicateKey_def
      mkRow_def jsString_def string_2019 trim_def isWhiteSpace_def)

text \<open>
  Claim C4. Committing a row-key rename whose trimmed text is empty or equals the rendered
  key of another row leaves the row store as it was (\<open>commit_rejects_noop\<close>, and
  \<open>existing_key_rejected\<close> for the rows 2019 and 2020), so rendered keys should stay
  unique. The duplicate test compares the rendered keys with the text as typed, while the
  key stored is the number the text denotes: with rows keyed 2019 and 2020, renaming the
  second row to \<open>2019.0\<close> passes the test and stores the number 2019, and both rows
  render the key \<open>2019\<close>.
\<close>

theorem key_rename_makes_duplicate:
  "renderedKeys twoRows = [''2019'', ''2020'']
   \<and> renderedKeys (renameRowKey 1 ''2019.0'' twoRows) = [''2019'', ''2019'']"
  by (simp add: renderedKeys_def rows_renameRowKey twoRows_fields commitRows_def duplicateKey_def
      mkRow_def jsString_def string_2019 trim_def isWhiteSpace_def matchesDecimal_def isDigit_def
      decimalValue_def digitsToNat_def)

section \<open>Rows that share a key\<close>

lemma editing_renameRowKey:
  assumes "ri < length (rows st)"
  shows "editingRowIndex (renameRowKey ri txt st) = None"
proof -
  define st1 where "st1 = runEffects (startEditRowHeader ri st)"
  define st2 where "st2 = runEffects (setEditingRowValue txt st1)"
  have s1: "editingRowIndex st1 = Some ri"
    using assms by (simp add: st1_def startEditRowHeader_def)
  have s2: "editingRowIndex st2 = Some ri"
    using s1 by (simp add: st2_def setEditingRowValue_def)
  have "editingRowIndex (renameRowKey ri txt st) = editingRowIndex (commitEditRowHeader st2)"
    by (simp add: renameRowKey_def st2_def st1_def)
  then show ?thesis
    by (simp add: commitEditRowHeader_def cancelEditRowHeader_def Let_def s2)
qed

lemma sweep_renameRowKey:
  "sweepActive (renameRowKey ri txt st) = sweepActive st"
  "sweepRowSet (renameRowKey ri txt st) = sweepRowSet st"
proof -
  define st1 where "st1 = runEffects (startEditRowHeader ri st)"
  define st2 where "st2 = runEffects (setEditingRowValue txt st1)"
  have s1: "sweepActive st1 = sweepActive st" "sweepRowSet st1 = sweepRowSet st"
    by (simp_all add: st1_def startEditRowHeader_def)
  have s2: "sweepActive st2 = sweepActive st" "sweepRowSet st2 = sweepRowSet st"
    using s1 by (simp_all add: st2_def setEditingRowValue_def)
  have c: "sweepActive (commitEditRowHeader st2) = sweepActive st2"
    "sweepRowSet (commitEditRowHeader st2) = sweepRowSet st2"
    by (simp_all add: commitEditRowHeader_def cancelEditRowHeader_def Let_def split: option.splits)
  show "sweepActive (renameRowKey ri txt st) = sweepActive st"
    using c(1) s2(1) by (simp add: renameRowKey_def st2_def st1_def)
  show "sweepRowSet (renameRowKey ri txt st) = sweepRowSet st"
    using c(2) s2(2) by (simp add: renameRowKey_def st2_def st1_def)
qed

lemma sharedKey_rows:
  "rows sharedKey =
     [mkRow 2019 120 48 30 12 30, mkRow 2019 135 53 33 14 35, mkRow 2021 155 60 36 16 43,
      mkRow 2022 178 68 40 18 52, mkRow 2023 205 78 44 20 63, mkRow 2024 236 90 49 22 75,
      mkRow 2025 264 100 53 24 87]"
  by (simp add: sharedKey_def rows_renameRowKey initialApp_fields initialRows_def commitRows_def
      duplicateKey_def mkRow_def jsString_def numToString_def posToString_def natToString.simps
      digitChar_def trim_def isWhiteSpace_def matchesDecimal_def isDigit_def decimalValue_def
      digitsToNat_def)

lemma sharedKey_fields:
  "editingRowIndex sharedKey = None"
  "sweepActive sharedKey = None"
  "sweepRowSet sharedKey = {}"
  by (simp_all add: sharedKey_def editing_renameRowKey sweep_renameRowKey initialApp_fields
      initialRows_def initialApp_def)

lemma sharedKey_moved_up:
  "rows (dragDropRow (Num 2021) (Num 2019) above sharedKey) =
     [mkRow 2021 155 60 36 16 43, mkRow 2019 120 48 30 12 30, mkRow 2019 135 53 33 14 35,
      mkRow 2022 178 68 40 18 52, mkRow 2023 205 78 44 20 63, mkRow 2024 236 90 49 22 75,
      mkRow 2025 264 100 53 24 87]"
  by (simp add: rows_dragDropRow sharedKey_fields sharedKey_rows reorderRows_def mkRow_def
      spliceIn_def spliceOut_def)

lemma sharedKey_moved_back:
  "rows (dragDropRow (Num 2021) (Num 2019) below
      (dragDropRow (Num 2021) (Num 2019) above sharedKey)) =
     [mkRow 2019 120 48 30 12 30, mkRow 2021 155 60 36 16 43, mkRow 2019 135 53 33 14 35,
      mkRow 2022 178 68 40 18 52, mkRow 2023 205 78 44 20 63, mkRow 2024 236 90 49 22 75,
      mkRow 2025 264 100 53 24 87]"
  by (simp add: rows_dragDropRow sharedKey_fields sharedKey_moved_up reorderRows_def mkRow_def
      spliceIn_def spliceOut_def)

text \<open>
  Claim C9. For columns, and for rows of distinct keys, a move to the neighbouring place
  and the move back restore the order (\<open>adjacent_move_round_trip\<close>). The row handlers
  find the dragged row and the target row by key, taking the first match, and the row
  store does not keep its keys distinct: after the second header has been renamed to
  \<open>2019.0\<close> the keys are 2019, 2019, 2021 and so on. Dropping the row 2021 on the upper
  half of the row above it, the second row 2019, finds the first row 2019 and puts the
  row at the head of the list, two places up. Dropping it back on the lower half of that
  neighbour puts it between the two rows 2019, and the order is not the original one.
\<close>

theorem shared_key_breaks_row_round_trip:
  "map key (rows sharedKey) =
     [Num 2019, Num 2019, Num 2021, Num 2022, Num 2023, Num 2024, Num 2025]
   \<and> map key (rows (dragDropRow (Num 2021) (Num 2019) above sharedKey)) =
       [Num 2021, Num 2019, Num 2019, Num 2022, Num 2023, Num 2024, Num 2025]
   \<and> map key (rows (dragDropRow (Num 2021) (Num 2019) below
         (dragDropRow (Num 2021) (Num 2019) above sharedKey))) =
       [Num 2019, Num 2021, Num 2019, Num 2022, Num 2023, Num 2024, Num 2025]"
  by (simp add: sharedKey_rows sharedKey_moved_up sharedKey_moved_back mkRow_def)

lemma sharedKey_pressed:
  "rows (handleRowHeaderMouseDown 0 (key (rows sharedKey ! 0)) plainPress sharedKey) =
     (rows sharedKey)[0 := flipHidden (rows sharedKey ! 0)]"
  "sweepActive (handleRowHeaderMouseDown 0 (key (rows sharedKey ! 0)) plainPress sharedKey) =
     Some row_k"
  "sweepRowSet (handleRowHeaderMouseDown 0 (key (rows sharedKey ! 0)) plainPress sharedKey) =
     {Num 2019}"
  by (simp_all add: handleRowHeaderMouseDown_def plainPress_def sharedKey_fields sharedKey_rows
      mkRow_def)

text \<open>
  Claim C6. Over column headers, and over the headers of rows of distinct keys, a sweep
  toggles each header pressed or entered exactly once (\<open>sweep_toggles_once\<close>). The row
  handlers record the key of a header in the touched set and toggle the row at its index,
  and the row store does not keep its keys distinct: after the second header has been
  renamed to \<open>2019.0\<close> the first two rows both have the key 2019. A sweep that starts on
  the first row and enters the second and the third toggles the first and the third; the
  second header, entered for the first time, finds its key in the touched set and is not
  toggled.
\<close>

theorem shared_key_row_not_swept:
  "map hidden (rows sharedKey) = [False, False, False, False, False, False, False]
   \<and> map hidden (rows (rowSweep 0 plainPress [EnterRow 1, EnterRow 2] sharedKey)) =
       [True, False, True, False, False, False, False]"
proof -
  define st1 where "st1 = handleRowHeaderMouseDown 0 (key (rows sharedKey ! 0)) plainPress sharedKey"
  define st2 where "st2 = enterStep (EnterRow 1) st1"
  define st3 where "st3 = enterStep (EnterRow 2) st2"
  have r1: "rows st1 = (rows sharedKey)[0 := flipHidden (rows sharedKey ! 0)]"
    and a1: "sweepActive st1 = Some row_k" and t1: "sweepRowSet st1 = {Num 2019}"
    unfolding st1_def by (rule sharedKey_pressed)+
  have k1: "key (rows st1 ! 1) = Num 2019"
    by (simp add: r1 sharedKey_rows mkRow_def)
  have s2: "st2 = st1"
    using k1 a1 t1 by (simp add: st2_def handleRowHeaderMouseEnter_def)
  have k2: "key (rows st2 ! 2) = Num 2021"
    by (simp add: s2 r1 sharedKey_rows mkRow_def)
  have r3: "rows st3 = (rows st1)[2 := flipHidden (rows st1 ! 2)]"
    using k2 a1 t1 by (simp add: st3_def handleRowHeaderMouseEnter_def s2)
  have "rowSweep 0 plainPress [EnterRow 1, EnterRow 2] sharedKey = endSweep st3"
    by (simp add: rowSweep_def enterRun_def st3_def st2_def st1_def)
  then have "rows (rowSweep 0 plainPress [EnterRow 1, EnterRow 2] sharedKey) =
      (rows st1)[2 := flipHidden (rows st1 ! 2)]"
    by (simp add: endSweep_def r3)
  then show ?thesis
    by (simp add: r1 sharedKey_rows mkRow_def flipHidden_def)
qed

section \<open>The histogram\<close>

text \<open>The Bins box keeps the number typed within 1 and 50 and sets nothing else.\<close>

lemma onBinsInput_bounds:
  "1 \<le> histogramBins (onBinsInput n st) \<and> histogramBins (onBinsInput n st) \<le> 50"
  by (cases n) (simp_all add: onBinsInput_def)

lemma onBinsInput_keeps:
  "rows (onBinsInput n st) = rows st"
  "histogramColumn (onBinsInput n st) = histogramColumn st"
  by (simp_all add: onBinsInput_def)

lemma histogramValues_onBinsInput: "histogramValues (onBinsInput n st) = histogramValues st"
  by (simp add: histogramValues_def activeRows_def onBinsInput_keeps)

lemma histogramValues_setChartType: "histogramValues (setChartType t st) = histogramValues st"
  by (simp add: histogramValues_def activeRows_def setChartType_def)

lemma initial_values: "histogramValues initialApp = [120, 135, 155, 178, 205, 236, 264]"
  by (simp add: histogramValues_def activeRows_def initialApp_def initialRows_def mkRow_def
      getProp_def List.map_filter_def)

lemma initial_range:
  "minOf [120, 135, 155, 178, 205, 236, 264] = 120"
  "maxOf [120, 135, 155, 178, 205, 236, 264] = 264"
  by (simp_all add: minOf_def maxOf_def)

text \<open>The histogram from its parts.\<close>

lemma histogramCounts_eq:
  assumes "histogramValues st = vs" and "vs \<noteq> []" and "minOf vs = lo" and "maxOf vs = hi"
    and "binCountOf st = bc" and "binSizeOf lo hi bc = w"
    and "replicate (nat \<lfloor>bc\<rfloor>) 0 = zs" and "fillBins lo w bc vs zs = r"
  shows "histogramCounts st = (case r of None \<Rightarrow> TypeError | Some counts \<Rightarrow> Counts counts)"
  using assms by (simp add: histogramCounts_def Let_def)

text \<open>The values 1 to 10 in five bins: the bin size is the double nearest to 1.8.\<close>

lemma tenValues_values: "histogramValues tenValues = [1, 2, 3, 4, 5, 6, 7, 8, 9, 10]"
  by (simp add: histogramValues_def activeRows_def tenValues_def initialApp_def valueRow_def
      getProp_def List.map_filter_def)

lemma tenValues_bins: "binCountOf tenValues = 5"
  by (simp add: binCountOf_def tenValues_def initialApp_def)

lemma ten_range:
  "minOf [1, 2, 3, 4, 5, 6, 7, 8, 9, 10] = 1"
  "maxOf [1, 2, 3, 4, 5, 6, 7, 8, 9, 10] = 10"
  by (simp_all add: minOf_def maxOf_def)

lemma ten_size: "binSizeOf 1 10 5 = Fin (8106479329266893 / 2 ^ 52)"
  unfolding binSizeOf_def ddiv_def dsub_def rnd_def roundDouble_def Let_def
  by (simp add: log2Floor.simps pow2_def roundHalfEven_def maxDouble_def)

lemma ten_indices:
  "binIndex 1 (Fin (8106479329266893 / 2 ^ 52)) 5 1 = Fin 0"
  "binIndex 1 (Fin (8106479329266893 / 2 ^ 52)) 5 2 = Fin 0"
  "binIndex 1 (Fin (8106479329266893 / 2 ^ 52)) 5 3 = Fin 1"
  "binIndex 1 (Fin (8106479329266893 / 2 ^ 52)) 5 4 = Fin 1"
  "binIndex 1 (Fin (8106479329266893 / 2 ^ 52)) 5 5 = Fin 2"
  "binIndex 1 (Fin (8106479329266893 / 2 ^ 52)) 5 6 = Fin 2"
  "binIndex 1 (Fin (8106479329266893 / 2 ^ 52)) 5 7 = Fin 3"
  "binIndex 1 (Fin (8106479329266893 / 2 ^ 52)) 5 8 = Fin 3"
  "binIndex 1 (Fin (8106479329266893 / 2 ^ 52)) 5 9 = Fin 4"
  "binIndex 1 (Fin (8106479329266893 / 2 ^ 52)) 5 10 = Fin 4"
  unfolding binIndex_def ddiv_def dsub_def floorD_def geD_def rnd_def roundDouble_def Let_def
  by (simp_all add: log2Floor.simps pow2_def roundHalfEven_def maxDouble_def)

lemma ten_counts: "histogramCounts tenValues = Counts [2, 2, 2, 2, 2]"
proof -
  have fill: "fillBins 1 (Fin (8106479329266893 / 2 ^ 52)) 5 [1, 2, 3, 4, 5, 6, 7, 8, 9, 10]
      [0, 0, 0, 0, 0] = Some [2, 2, 2, 2, 2]"
    unfolding fillBins.simps ten_indices by (simp add: bumpBin_def)
  have ne: "[1, 2, 3, 4, 5, 6, 7, 8, 9, 10 :: rat] \<noteq> []" by simp
  have zs: "replicate (nat \<lfloor>5 :: rat\<rfloor>) (0 :: nat) = [0, 0, 0, 0, 0]"
    by (simp add: eval_nat_numeral)
  from histogramCounts_eq [OF tenValues_values ne ten_range tenValues_bins ten_size zs fill]
  show ?thesis by simp
qed

text \<open>
  The values 0, 0.3 and 1 in ten bins: the bin size is the double nearest to 0.1, and the
  quotient of the doubles 0.3 and 0.1 rounds to a number below 3, so that 0.3 is counted
  in the bin 2.
\<close>

lemma tenths_values:
  "histogramValues tenths = [0, 5404319552844595 / 2 ^ 54, 1]"
proof -
  have "roundDouble (3 / 10) = 5404319552844595 / 2 ^ 54"
    unfolding roundDouble_def Let_def
    by (simp add: log2Floor.simps pow2_def roundHalfEven_def)
  then show ?thesis
    by (simp add: histogramValues_def activeRows_def tenths_def initialApp_def valueRow_def
        getProp_def List.map_filter_def)
qed

lemma tenths_range:
  "minOf [0, 5404319552844595 / 2 ^ 54, 1] = 0"
  "maxOf [0, 5404319552844595 / 2 ^ 54, 1] = 1"
  by (simp_all add: minOf_def maxOf_def)

lemma tenths_size: "binSizeOf 0 1 10 = Fin (3602879701896397 / 2 ^ 55)"
  unfolding binSizeOf_def ddiv_def dsub_def rnd_def roundDouble_def Let_def
  by (simp add: log2Floor.simps pow2_def roundHalfEven_def maxDouble_def)

lemma tenths_indices:
  "binIndex 0 (Fin (3602879701896397 / 2 ^ 55)) 10 0 = Fin 0"
  "binIndex 0 (Fin (3602879701896397 / 2 ^ 55)) 10 (5404319552844595 / 2 ^ 54) = Fin 2"
  "binIndex 0 (Fin (3602879701896397 / 2 ^ 55)) 10 1 = Fin 9"
  unfolding binIndex_def ddiv_def dsub_def floorD_def geD_def rnd_def roundDouble_def Let_def
  by (simp_all add: log2Floor.simps pow2_def roundHalfEven_def maxDouble_def)

lemma tenths_counts: "histogramCounts tenths = Counts [1, 0, 1, 0, 0, 0, 0, 0, 0, 1]"
proof -
  have fill: "fillBins 0 (Fin (3602879701896397 / 2 ^ 55)) 10
      [0, 5404319552844595 / 2 ^ 54, 1] [0, 0, 0, 0, 0, 0, 0, 0, 0, 0] =
      Some [1, 0, 1, 0, 0, 0, 0, 0, 0, 1]"
    unfolding fillBins.simps tenths_indices by (simp add: bumpBin_def)
  have bc: "binCountOf tenths = 10"
    by (simp add: binCountOf_def tenths_def initialApp_def)
  have ne: "[0, 5404319552844595 / 2 ^ 54, 1 :: rat] \<noteq> []" by simp
  have zs: "replicate (nat \<lfloor>10 :: rat\<rfloor>) (0 :: nat) = [0, 0, 0, 0, 0, 0, 0, 0, 0, 0]"
    by (simp add: eval_nat_numeral)
  from histogramCounts_eq [OF tenths_values ne tenths_range bc tenths_size zs fill]
  show ?thesis by simp
qed

text \<open>The Revenue column of the initial rows after 1.5 has been typed into the Bins box.\<close>

lemma half_bins: "binCountOf (onBinsInput (Fin (3 / 2)) st) = 3 / 2"
  by (simp add: binCountOf_def onBinsInput_def)

lemma half_size: "binSizeOf 120 264 (3 / 2) = Fin 96"
  unfolding binSizeOf_def ddiv_def dsub_def rnd_def roundDouble_def Let_def
  by (simp add: log2Floor.simps pow2_def roundHalfEven_def maxDouble_def)

lemma half_indices:
  "binIndex 120 (Fin 96) (3 / 2) 120 = Fin 0"
  "binIndex 120 (Fin 96) (3 / 2) 135 = Fin 0"
  "binIndex 120 (Fin 96) (3 / 2) 155 = Fin 0"
  "binIndex 120 (Fin 96) (3 / 2) 178 = Fin 0"
  "binIndex 120 (Fin 96) (3 / 2) 205 = Fin 0"
  "binIndex 120 (Fin 96) (3 / 2) 236 = Fin 1"
  unfolding binIndex_def ddiv_def dsub_def floorD_def geD_def rnd_def roundDouble_def Let_def
  by (simp_all add: log2Floor.simps pow2_def roundHalfEven_def maxDouble_def)

lemma half_fill:
  "fillBins 120 (Fin 96) (3 / 2) [120, 135, 155, 178, 205, 236, 264] [0] = None"
  unfolding fillBins.simps half_indices by (simp add: bumpBin_def)

text \<open>
  Claim C7. The bin count is a whole number from 1 to 50, and with such a count the
  values 1 to 10 in five bins are counted 2, 2, 2, 2, 2 (\<open>ten_counts\<close>). The Bins box
  bounds the number typed and does not round it, so that a typed 1.5 is stored as the bin
  count. With the histogram chosen as the chart and the Revenue column of the initial
  rows, from 120 to 264, the bin size is 144 / 1.5 = 96 and the array has one bin. The
  value 236 has the index \<open>\<lfloor>116 / 96\<rfloor> = 1\<close>, which is below 1.5 and is not replaced;
  there is no bin 1, and the counting loop throws a \<open>TypeError\<close> where it should
  count the value.
\<close>

theorem fractional_bin_count_throws:
  "chartType (onBinsInput (Fin (3 / 2)) (setChartType histogram initialApp)) = histogram
   \<and> histogramBins (onBinsInput (Fin (3 / 2)) (setChartType histogram initialApp)) = 3 / 2
   \<and> histogramCounts (onBinsInput (Fin (3 / 2)) (setChartType histogram initialApp)) = TypeError"
proof -
  have vs: "histogramValues (onBinsInput (Fin (3 / 2)) (setChartType histogram initialApp)) =
      [120, 135, 155, 178, 205, 236, 264]"
    unfolding histogramValues_onBinsInput histogramValues_setChartType by (rule initial_values)
  have ne: "[120, 135, 155, 178, 205, 236, 264 :: rat] \<noteq> []" by simp
  have zs: "replicate (nat \<lfloor>3 / 2 :: rat\<rfloor>) (0 :: nat) = [0]" by simp
  from histogramCounts_eq [OF vs ne initial_range half_bins half_size zs half_fill]
  have "histogramCounts (onBinsInput (Fin (3 / 2)) (setChartType histogram initialApp)) =
      TypeError" by simp
  then show ?thesis by (simp add: onBinsInput_def setChartType_def)
qed

end
